theory Spec2Isabelle
  imports Complex_Main "HOL-Library.Word"
begin

section \<open>JSON documents as the decoder receives them\<close>

text \<open>
  The byte slice handed to \<^verbatim>\<open>json.Unmarshal\<close> is modelled as the JSON document it
  spells.  An object keeps its members in wire order, duplicates included, because the
  decoder consumes them one after the other.  A number keeps its literal form: a literal
  without fraction and exponent (\<open>IntLit\<close>), or mantissa and decimal exponent
  (\<open>FloatLit m e\<close> is \<open>m * 10 ^ e\<close>, so \<^verbatim>\<open>1073741824.0\<close> is
  \<open>FloatLit 10737418240 (- 1)\<close>).
\<close>

datatype number = IntLit int | FloatLit int int

datatype json =
    JNull
  | JBool bool
  | JNumber number
  | JString string
  | JArray "json list"
  | JObject "(string \<times> json) list"

subsection \<open>float64 and int64\<close>

text \<open>
  A finite float64 is \<open>F64 m e\<close>, the value \<open>m * 2 ^ e\<close> with \<open>\<bar>m\<bar> < 2 ^ 53\<close>.
  \<open>ParseFloat\<close> gives the float64 nearest to the value of the literal, ties to the even
  mantissa; a literal that rounds beyond the largest float64 is a range error (\<open>None\<close>).
\<close>

datatype float64 = F64 int int

definition value_of :: "number \<Rightarrow> rat" where
  "value_of n =
     (case n of
        IntLit i \<Rightarrow> of_int i
      | FloatLit m e \<Rightarrow>
          if e \<ge> 0 then of_int m * 10 ^ nat e else of_int m / 10 ^ nat (- e))"

fun bitlen :: "nat \<Rightarrow> nat" where
  "bitlen n = (if n = 0 then 0 else Suc (bitlen (n div 2)))"

declare bitlen.simps [simp del]

text \<open>\<open>scale q e\<close> is \<open>q / 2 ^ e\<close> for an integer \<open>e\<close>.\<close>

definition scale :: "rat \<Rightarrow> int \<Rightarrow> rat" where
  "scale q e = (if e \<ge> 0 then q / 2 ^ nat e else q * 2 ^ nat (- e))"

text \<open>For \<open>q > 0\<close>, the exponent \<open>e\<close> with \<open>2 ^ 52 \<le> q / 2 ^ e < 2 ^ 53\<close>.\<close>

definition binade :: "rat \<Rightarrow> int" where
  "binade q =
     (let e0 = (if 1 \<le> q then int (bitlen (nat \<lfloor>q\<rfloor>)) - 53
                else - int (bitlen (nat \<lfloor>1 / q\<rfloor>)) - 52)
      in if scale q e0 < 2 ^ 53 then e0 else e0 + 1)"

definition round_half_even :: "rat \<Rightarrow> int" where
  "round_half_even x =
     (let f = \<lfloor>x\<rfloor>; r = x - of_int f
      in if r < 1 / 2 then f
         else if 1 / 2 < r then f + 1
         else if even f then f else f + 1)"

definition round_float64 :: "rat \<Rightarrow> float64 option" where
  "round_float64 q =
     (if q = 0 then Some (F64 0 0)
      else
        let a = \<bar>q\<bar>;
            e = max (binade a) (- 1074);
            m = round_half_even (scale a e);
            (m', e') = (if m = 2 ^ 53 then (2 ^ 52, e + 1) else (m, e))
        in if e' > 971 then None
           else Some (F64 (if q < 0 then - m' else m') e'))"

definition ParseFloat :: "number \<Rightarrow> float64 option" where
  "ParseFloat n = round_float64 (value_of n)"

text \<open>
  The conversion \<^verbatim>\<open>int64(t)\<close> of a float64 discards the fraction (truncation towards
  zero).  When the truncated value does not fit int64 the Go specification leaves the
  result to the implementation; the model takes the amd64 answer, the minimal int64.
\<close>

definition trunc_float64 :: "float64 \<Rightarrow> int" where
  "trunc_float64 f =
     (case f of F64 m e \<Rightarrow>
        if e \<ge> 0 then m * 2 ^ nat e
        else if m \<ge> 0 then m div 2 ^ nat (- e)
        else - ((- m) div 2 ^ nat (- e)))"

definition in_int64 :: "int \<Rightarrow> bool" where
  "in_int64 i \<longleftrightarrow> - (2 ^ 63) \<le> i \<and> i < 2 ^ 63"

definition int64_of_float64 :: "float64 \<Rightarrow> 64 word" where
  "int64_of_float64 f =
     (let i = trunc_float64 f
      in if in_int64 i then word_of_int i else word_of_int (- (2 ^ 63)))"

subsection \<open>Values of type \<^verbatim>\<open>interface{}\<close>\<close>

text \<open>
  Into an empty interface the decoder stores \<^verbatim>\<open>nil\<close>, \<^verbatim>\<open>bool\<close>, \<^verbatim>\<open>float64\<close>,
  \<^verbatim>\<open>string\<close>, \<^verbatim>\<open>[]interface{}\<close> or \<^verbatim>\<open>map[string]interface{}\<close>.
\<close>

datatype iface =
    INil
  | IBool bool
  | IFloat64 float64
  | IString string
  | ISlice "iface list"
  | IMap "(string \<times> iface) list"

section \<open>Errors and panics\<close>

text \<open>
  An \<open>error\<close> is a value a Go function returns; a \<open>panic\<close> unwinds the call instead.
  A call that may panic has the type \<open>panic + 'a\<close>; a Go result \<^verbatim>\<open>(T, error)\<close> is the
  pair of the value and \<open>error option\<close>, \<open>None\<close> for \<^verbatim>\<open>nil\<close>, since Go returns both.
\<close>

datatype error =
    UnmarshalTypeError json string
      \<comment> \<open>encoding/json: the JSON value and the Go type it does not fit\<close>
  | TimeParseError string
      \<comment> \<open>time.Parse: the text that is not in the layout\<close>
  | UnknownSizeType string iface
      \<comment> \<open>\<^verbatim>\<open>Unknown type for SizeBytes: %v (value: %v)\<close>: the observed Go type and the value\<close>
  | TransportError string
      \<comment> \<open>the error a result envelope already carries\<close>
  | MalformedPayload json
      \<comment> \<open>a body that is not a JSON object\<close>
  | TypeMismatch string json
      \<comment> \<open>a named field and the JSON value of a type it does not take\<close>

datatype panic =
    NilDereference
  | TypeAssertion string

section \<open>time.Parse with the layout RFC3339\<close>

text \<open>
  \<^verbatim>\<open>time.Parse(time.RFC3339, s)\<close> for the layout \<^verbatim>\<open>2006-01-02T15:04:05Z07:00\<close>: four
  digits of year, two of month and day, \<^verbatim>\<open>T\<close>, the clock, an optional fraction of a
  second, and the zone, \<^verbatim>\<open>Z\<close> or a signed \<^verbatim>\<open>hh:mm\<close>.  The layout element \<^verbatim>\<open>15\<close>
  takes an hour of one or two digits, so the function accepts more than RFC 3339 allows.
  A time is kept as its fields, the zone as its offset in minutes.
\<close>

record time =
  year :: nat
  month :: nat
  day :: nat
  hour :: nat
  minute :: nat
  second :: nat
  nanosecond :: nat
  zone_offset :: int

definition zero_time :: time where
  "zero_time = \<lparr>year = 1, month = 1, day = 1, hour = 0, minute = 0, second = 0,
     nanosecond = 0, zone_offset = 0\<rparr>"

definition is_digit :: "char \<Rightarrow> bool" where
  "is_digit c \<longleftrightarrow> (48::nat) \<le> of_char c \<and> of_char c \<le> (57::nat)"

definition digit_val :: "char \<Rightarrow> nat" where
  "digit_val c = of_char c - 48"

definition atoi :: "string \<Rightarrow> nat" where
  "atoi ds = foldl (\<lambda>a x. a * 10 + digit_val x) 0 ds"

text \<open>
  \<^verbatim>\<open>getnum(s, fixed)\<close> reads a number of one or two digits; with \<open>fixed\<close> it must have
  two.  The year is read as exactly four digits.
\<close>

definition getnum :: "string \<Rightarrow> bool \<Rightarrow> (nat \<times> string) option" where
  "getnum s fixed =
     (case s of
        [] \<Rightarrow> None
      | c # r \<Rightarrow>
          if \<not> is_digit c then None
          else (case r of
                  [] \<Rightarrow> if fixed then None else Some (digit_val c, r)
                | d # r' \<Rightarrow>
                    if is_digit d then Some (digit_val c * 10 + digit_val d, r')
                    else if fixed then None
                    else Some (digit_val c, r)))"

definition long_year :: "string \<Rightarrow> (nat \<times> string) option" where
  "long_year s =
     (if 4 \<le> length s \<and> list_all is_digit (take 4 s)
      then Some (atoi (take 4 s), drop 4 s) else None)"

fun expect :: "char \<Rightarrow> string \<Rightarrow> string option" where
  "expect c [] = None"
| "expect c (d # s) = (if c = d then Some s else None)"

definition leap_year :: "nat \<Rightarrow> bool" where
  "leap_year y \<longleftrightarrow> y mod 4 = 0 \<and> (y mod 100 \<noteq> 0 \<or> y mod 400 = 0)"

definition daysIn :: "nat \<Rightarrow> nat \<Rightarrow> nat" where
  "daysIn m y =
     (if m = 2 then (if leap_year y then 29 else 28)
      else if m = 4 \<or> m = 6 \<or> m = 9 \<or> m = 11 then 30 else 31)"

text \<open>The fraction: a dot or comma and at least one digit; digits past the ninth are dropped.\<close>

definition parse_fraction :: "string \<Rightarrow> nat \<times> string" where
  "parse_fraction s =
     (case s of
        c # d # rest \<Rightarrow>
          if (c = CHR ''.'' \<or> c = CHR '','') \<and> is_digit d then
            (let ds = takeWhile is_digit (d # rest);
                 ds9 = take 9 ds;
                 v = atoi ds9
             in (v * 10 ^ (9 - length ds9), dropWhile is_digit (d # rest)))
          else (0, s)
      | _ \<Rightarrow> (0, s))"

definition parse_zone :: "string \<Rightarrow> int option" where
  "parse_zone s =
     (case s of
        [] \<Rightarrow> None
      | c # rest \<Rightarrow>
          if c = CHR ''Z'' then (if rest = [] then Some 0 else None)
          else if c = CHR ''+'' \<or> c = CHR ''-'' then
            (case getnum rest True of
               None \<Rightarrow> None
             | Some (hh, r1) \<Rightarrow>
                 (case expect CHR '':'' r1 of
                    None \<Rightarrow> None
                  | Some r2 \<Rightarrow>
                      (case getnum r2 True of
                         None \<Rightarrow> None
                       | Some (mm, r3) \<Rightarrow>
                           if r3 = [] \<and> hh \<le> 24 \<and> mm \<le> 60
                           then Some ((if c = CHR ''-'' then - 1 else 1) * int (hh * 60 + mm))
                           else None)))
          else None)"

definition parse_clock :: "string \<Rightarrow> ((nat \<times> nat \<times> nat) \<times> string) option" where
  "parse_clock s =
     (case getnum s False of
        None \<Rightarrow> None
      | Some (h, r1) \<Rightarrow>
          (case expect CHR '':'' r1 of
             None \<Rightarrow> None
           | Some r2 \<Rightarrow>
               (case getnum r2 True of
                  None \<Rightarrow> None
                | Some (mi, r3) \<Rightarrow>
                    (case expect CHR '':'' r3 of
                       None \<Rightarrow> None
                     | Some r4 \<Rightarrow>
                         (case getnum r4 True of
                            None \<Rightarrow> None
                          | Some (sec, r5) \<Rightarrow>
                              if h < 24 \<and> mi < 60 \<and> sec < 60
                              then Some ((h, mi, sec), r5) else None)))))"

definition parse_date :: "string \<Rightarrow> ((nat \<times> nat \<times> nat) \<times> string) option" where
  "parse_date s =
     (case long_year s of
        None \<Rightarrow> None
      | Some (y, r1) \<Rightarrow>
          (case expect CHR ''-'' r1 of
             None \<Rightarrow> None
           | Some r2 \<Rightarrow>
               (case getnum r2 True of
                  None \<Rightarrow> None
                | Some (mo, r3) \<Rightarrow>
                    (case expect CHR ''-'' r3 of
                       None \<Rightarrow> None
                     | Some r4 \<Rightarrow>
                         (case getnum r4 True of
                            None \<Rightarrow> None
                          | Some (d, r5) \<Rightarrow>
                              if 1 \<le> mo \<and> mo \<le> 12 \<and> 1 \<le> d \<and> d \<le> daysIn mo y
                              then Some ((y, mo, d), r5) else None)))))"

definition time_Parse_RFC3339 :: "string \<Rightarrow> error + time" where
  "time_Parse_RFC3339 s =
     (case parse_date s of
        None \<Rightarrow> Inl (TimeParseError s)
      | Some ((y, mo, d), r1) \<Rightarrow>
          (case expect CHR ''T'' r1 of
             None \<Rightarrow> Inl (TimeParseError s)
           | Some r2 \<Rightarrow>
               (case parse_clock r2 of
                  None \<Rightarrow> Inl (TimeParseError s)
                | Some ((h, mi, sec), r3) \<Rightarrow>
                    (case parse_fraction r3 of
                       (ns, r4) \<Rightarrow>
                         (case parse_zone r4 of
                            None \<Rightarrow> Inl (TimeParseError s)
                          | Some off \<Rightarrow>
                              Inr \<lparr>year = y, month = mo, day = d, hour = h, minute = mi,
                                   second = sec, nanosecond = ns, zone_offset = off\<rparr>)))))"

section \<open>encoding/json: decoding into Go values\<close>

subsection \<open>Matching an object key to a struct field\<close>

text \<open>
  The decoder takes the field whose name is the key; failing that, the field whose name
  equals the key under case folding.  Folding maps a lower-case ASCII letter to its capital;
  the Kelvin sign (bytes E2 84 AA) folds to \<^verbatim>\<open>K\<close> and the long s (bytes C5 BF) to \<^verbatim>\<open>S\<close>,
  the only other runes that fold onto ASCII.  A folded name is kept as its byte codes.
\<close>

definition fold_char :: "char \<Rightarrow> nat" where
  "fold_char c =
     (if (97::nat) \<le> of_char c \<and> of_char c \<le> (122::nat)
      then of_char c - 32 else of_char c)"

fun foldName :: "string \<Rightarrow> nat list" where
  "foldName [] = []"
| "foldName (c # s) =
     (if of_char c = (226::nat) \<and> map of_char (take 2 s) = [132, 170::nat]
        then 75 # foldName (drop 2 s)
      else if of_char c = (197::nat) \<and> map of_char (take 1 s) = [191::nat]
        then 83 # foldName (drop 1 s)
      else fold_char c # foldName s)"

definition match_field :: "(string \<times> 'f) list \<Rightarrow> string \<Rightarrow> 'f option" where
  "match_field tbl key =
     (case map_of tbl key of
        Some f \<Rightarrow> Some f
      | None \<Rightarrow> map_option snd (find (\<lambda>(n, f). foldName n = foldName key) tbl))"

subsection \<open>Decoding into \<^verbatim>\<open>interface{}\<close>\<close>

text \<open>A number that \<open>ParseFloat\<close> rejects is an \<open>UnmarshalTypeError\<close>.\<close>

fun to_iface :: "json \<Rightarrow> error + iface"
  and to_ifaces :: "json list \<Rightarrow> error + iface list"
  and to_members :: "(string \<times> json) list \<Rightarrow> error + (string \<times> iface) list"
where
  "to_iface JNull = Inr INil"
| "to_iface (JBool b) = Inr (IBool b)"
| "to_iface (JNumber n) =
     (case ParseFloat n of
        None \<Rightarrow> Inl (UnmarshalTypeError (JNumber n) ''float64'')
      | Some f \<Rightarrow> Inr (IFloat64 f))"
| "to_iface (JString s) = Inr (IString s)"
| "to_iface (JArray vs) =
     (case to_ifaces vs of Inl e \<Rightarrow> Inl e | Inr xs \<Rightarrow> Inr (ISlice xs))"
| "to_iface (JObject kvs) =
     (case to_members kvs of Inl e \<Rightarrow> Inl e | Inr xs \<Rightarrow> Inr (IMap xs))"
| "to_ifaces [] = Inr []"
| "to_ifaces (v # vs) =
     (case to_iface v of
        Inl e \<Rightarrow> Inl e
      | Inr x \<Rightarrow> (case to_ifaces vs of Inl e \<Rightarrow> Inl e | Inr xs \<Rightarrow> Inr (x # xs)))"
| "to_members [] = Inr []"
| "to_members ((k, v) # kvs) =
     (case to_iface v of
        Inl e \<Rightarrow> Inl e
      | Inr x \<Rightarrow> (case to_members kvs of Inl e \<Rightarrow> Inl e | Inr xs \<Rightarrow> Inr ((k, x) # xs)))"

text \<open>What \<^verbatim>\<open>reflect.TypeOf\<close> prints for such a value.\<close>

fun type_name :: "iface \<Rightarrow> string" where
  "type_name INil = ''<nil>''"
| "type_name (IBool b) = ''bool''"
| "type_name (IFloat64 f) = ''float64''"
| "type_name (IString s) = ''string''"
| "type_name (ISlice xs) = ''[]interface {}''"
| "type_name (IMap xs) = ''map[string]interface {}''"

subsection \<open>Typed fields\<close>

text \<open>
  Each decoder takes the JSON value and the field's present content and gives the new
  content.  \<^verbatim>\<open>null\<close> leaves a string, boolean or integer as it is and sets a slice or a
  map to \<^verbatim>\<open>nil\<close> (\<open>None\<close>).  An integer field takes only a literal without fraction and
  exponent that fits 64 bits (\<^verbatim>\<open>int\<close> is taken as 64 bits wide).
\<close>

fun dec_string :: "json \<Rightarrow> string \<Rightarrow> error + string" where
  "dec_string (JString s) old = Inr s"
| "dec_string JNull old = Inr old"
| "dec_string v old = Inl (UnmarshalTypeError v ''string'')"

fun dec_bool :: "json \<Rightarrow> bool \<Rightarrow> error + bool" where
  "dec_bool (JBool b) old = Inr b"
| "dec_bool JNull old = Inr old"
| "dec_bool v old = Inl (UnmarshalTypeError v ''bool'')"

fun dec_int :: "string \<Rightarrow> json \<Rightarrow> 64 word \<Rightarrow> error + 64 word" where
  "dec_int ty (JNumber (IntLit i)) old =
     (if in_int64 i then Inr (word_of_int i)
      else Inl (UnmarshalTypeError (JNumber (IntLit i)) ty))"
| "dec_int ty JNull old = Inr old"
| "dec_int ty v old = Inl (UnmarshalTypeError v ty)"

text \<open>
  A slice of strings is kept with its backing array: the elements up to its length, and
  what the array holds past the length (slots never written hold the zero string and are
  left out).  Element \<open>i\<close> of a JSON array is decoded onto slot \<open>i\<close> of the array, so
  \<^verbatim>\<open>null\<close> keeps what the slot holds, also past the length of the slice; the slice ends
  with the JSON array, and an empty JSON array gives a fresh empty slice.
\<close>

type_synonym string_slice = "string list \<times> string list"

fun dec_elems :: "json list \<Rightarrow> string list \<Rightarrow> error + string list" where
  "dec_elems [] slots = Inr []"
| "dec_elems (v # vs) slots =
     (case dec_string v (case slots of [] \<Rightarrow> [] | x # _ \<Rightarrow> x) of
        Inl e \<Rightarrow> Inl e
      | Inr s \<Rightarrow>
          (case dec_elems vs (tl slots) of Inl e \<Rightarrow> Inl e | Inr ss \<Rightarrow> Inr (s # ss)))"

fun dec_strings :: "json \<Rightarrow> string_slice option \<Rightarrow> error + string_slice option" where
  "dec_strings (JArray vs) old =
     (let slots = (case old of None \<Rightarrow> [] | Some (xs, spare) \<Rightarrow> xs @ spare)
      in case dec_elems vs slots of
           Inl e \<Rightarrow> Inl e
         | Inr ss \<Rightarrow> Inr (Some (if vs = [] then ([], []) else (ss, drop (length vs) slots))))"
| "dec_strings JNull old = Inr None"
| "dec_strings v old = Inl (UnmarshalTypeError v ''[]string'')"

text \<open>
  A map of strings: the members are stored one by one into the map the field holds (a
  fresh one when it is \<^verbatim>\<open>nil\<close>), each element decoded from the zero string.
\<close>

fun dec_entries :: "(string \<times> json) list \<Rightarrow> (string \<rightharpoonup> string) \<Rightarrow> error + (string \<rightharpoonup> string)" where
  "dec_entries [] m = Inr m"
| "dec_entries ((k, v) # kvs) m =
     (case dec_string v [] of
        Inl e \<Rightarrow> Inl e
      | Inr s \<Rightarrow> dec_entries kvs (m(k \<mapsto> s)))"

fun dec_strmap :: "json \<Rightarrow> (string \<rightharpoonup> string) option \<Rightarrow> error + (string \<rightharpoonup> string) option" where
  "dec_strmap (JObject kvs) old =
     (case dec_entries kvs (case old of None \<Rightarrow> Map.empty | Some m \<Rightarrow> m) of
        Inl e \<Rightarrow> Inl e | Inr m \<Rightarrow> Inr (Some m))"
| "dec_strmap JNull old = Inr None"
| "dec_strmap v old = Inl (UnmarshalTypeError v ''map[string]string'')"

section \<open>Images\<close>

subsection \<open>The Image struct\<close>

text \<open>
  \<^verbatim>\<open>ImageStatus\<close> and \<^verbatim>\<open>ImageVisibility\<close> are string types.  A slice or map field is
  \<open>None\<close> when it is \<^verbatim>\<open>nil\<close>; the elements of a slice are the first component.
\<close>

record Image =
  ID :: string
  Name :: string
  Status :: string
  Tags :: "string_slice option"
  ContainerFormat :: string
  DiskFormat :: string
  MinDiskGigabytes :: "64 word"
  MinRAMMegabytes :: "64 word"
  Owner :: string
  Protected :: bool
  Visibility :: string
  Checksum :: string
  SizeBytes :: "64 word"
  Metadata :: "(string \<rightharpoonup> string) option"
  Properties :: "(string \<rightharpoonup> string) option"
  CreatedAt :: time
  UpdatedAt :: time
  File :: string
  Schema :: string
  VirtualSize :: "64 word"
  Self :: string
  DirectURL :: string
  Locations :: "string_slice option"

definition zero_Image :: Image where
  "zero_Image =
     \<lparr>ID = [], Name = [], Status = [], Tags = None, ContainerFormat = [], DiskFormat = [],
      MinDiskGigabytes = 0, MinRAMMegabytes = 0, Owner = [], Protected = False,
      Visibility = [], Checksum = [], SizeBytes = 0, Metadata = None, Properties = None,
      CreatedAt = zero_time, UpdatedAt = zero_time, File = [], Schema = [],
      VirtualSize = 0, Self = [], DirectURL = [], Locations = None\<rparr>"

text \<open>
  What reflection sees of a struct type: each field's name and the value of the
  \<^verbatim>\<open>json\<close> key of its tag, \<open>None\<close> for a field without one.
\<close>

datatype StructField = StructField string "string option"

definition Image_type :: "StructField list" where
  "Image_type =
     [StructField ''ID'' (Some ''id''),
      StructField ''Name'' (Some ''name''),
      StructField ''Status'' (Some ''status''),
      StructField ''Tags'' (Some ''tags''),
      StructField ''ContainerFormat'' (Some ''container_format''),
      StructField ''DiskFormat'' (Some ''disk_format''),
      StructField ''MinDiskGigabytes'' (Some ''min_disk''),
      StructField ''MinRAMMegabytes'' (Some ''min_ram''),
      StructField ''Owner'' (Some ''owner''),
      StructField ''Protected'' (Some ''protected''),
      StructField ''Visibility'' (Some ''visibility''),
      StructField ''Checksum'' (Some ''checksum''),
      StructField ''SizeBytes'' (Some ''size''),
      StructField ''Metadata'' (Some ''metadata''),
      StructField ''Properties'' (Some ''properties''),
      StructField ''CreatedAt'' (Some ''-''),
      StructField ''UpdatedAt'' (Some ''-''),
      StructField ''File'' (Some ''file''),
      StructField ''Schema'' (Some ''schema''),
      StructField ''VirtualSize'' (Some ''virtual_size''),
      StructField ''Self'' (Some ''self''),
      StructField ''DirectURL'' (Some ''direct_url''),
      StructField ''Locations'' (Some ''locations'')]"

subsection \<open>The transient struct of UnmarshalJSON\<close>

text \<open>
  \<^verbatim>\<open>struct { tmp; SizeBytes interface{} `json:"size"`; CreatedAt string
  `json:"created_at"`; UpdatedAt string `json:"updated_at"` }\<close>, with \<^verbatim>\<open>type tmp Image\<close>
  embedded without a tag.
\<close>

record transient =
  tmp :: Image
  p_SizeBytes :: iface
  p_CreatedAt :: string
  p_UpdatedAt :: string

definition zero_transient :: transient where
  "zero_transient = \<lparr>tmp = zero_Image, p_SizeBytes = INil, p_CreatedAt = [], p_UpdatedAt = []\<rparr>"

definition transient_type :: "StructField list" where
  "transient_type =
     [StructField ''tmp'' None,
      StructField ''SizeBytes'' (Some ''size''),
      StructField ''CreatedAt'' (Some ''created_at''),
      StructField ''UpdatedAt'' (Some ''updated_at'')]"

text \<open>
  The fields \<^verbatim>\<open>json.Unmarshal\<close> fills in the transient struct, by JSON name.  The fields
  of the embedded \<^verbatim>\<open>tmp\<close> are promoted; its \<^verbatim>\<open>size\<close> is hidden by the outer field of
  that name, and its two time fields are tagged \<^verbatim>\<open>-\<close>, so the decoder never writes them.
\<close>

datatype target =
    T_ID | T_Name | T_Status | T_Tags | T_ContainerFormat | T_DiskFormat
  | T_MinDiskGigabytes | T_MinRAMMegabytes | T_Owner | T_Protected | T_Visibility
  | T_Checksum | T_Metadata | T_Properties | T_File | T_Schema | T_VirtualSize
  | T_Self | T_DirectURL | T_Locations
  | P_SizeBytes | P_CreatedAt | P_UpdatedAt

definition transient_fields :: "(string \<times> target) list" where
  "transient_fields =
     [(''size'', P_SizeBytes),
      (''created_at'', P_CreatedAt),
      (''updated_at'', P_UpdatedAt),
      (''id'', T_ID),
      (''name'', T_Name),
      (''status'', T_Status),
      (''tags'', T_Tags),
      (''container_format'', T_ContainerFormat),
      (''disk_format'', T_DiskFormat),
      (''min_disk'', T_MinDiskGigabytes),
      (''min_ram'', T_MinRAMMegabytes),
      (''owner'', T_Owner),
      (''protected'', T_Protected),
      (''visibility'', T_Visibility),
      (''checksum'', T_Checksum),
      (''metadata'', T_Metadata),
      (''properties'', T_Properties),
      (''file'', T_File),
      (''schema'', T_Schema),
      (''virtual_size'', T_VirtualSize),
      (''self'', T_Self),
      (''direct_url'', T_DirectURL),
      (''locations'', T_Locations)]"

definition in_tmp :: "(Image \<Rightarrow> Image) \<Rightarrow> transient \<Rightarrow> transient" where
  "in_tmp f p = p\<lparr>tmp := f (tmp p)\<rparr>"

fun store :: "target \<Rightarrow> json \<Rightarrow> transient \<Rightarrow> error + transient" where
  "store T_ID v p = map_sum id (\<lambda>x. in_tmp (ID_update (\<lambda>_. x)) p) (dec_string v (ID (tmp p)))"
| "store T_Name v p = map_sum id (\<lambda>x. in_tmp (Name_update (\<lambda>_. x)) p) (dec_string v (Name (tmp p)))"
| "store T_Status v p = map_sum id (\<lambda>x. in_tmp (Status_update (\<lambda>_. x)) p) (dec_string v (Status (tmp p)))"
| "store T_Tags v p = map_sum id (\<lambda>x. in_tmp (Tags_update (\<lambda>_. x)) p) (dec_strings v (Tags (tmp p)))"
| "store T_ContainerFormat v p =
     map_sum id (\<lambda>x. in_tmp (ContainerFormat_update (\<lambda>_. x)) p) (dec_string v (ContainerFormat (tmp p)))"
| "store T_DiskFormat v p =
     map_sum id (\<lambda>x. in_tmp (DiskFormat_update (\<lambda>_. x)) p) (dec_string v (DiskFormat (tmp p)))"
| "store T_MinDiskGigabytes v p =
     map_sum id (\<lambda>x. in_tmp (MinDiskGigabytes_update (\<lambda>_. x)) p)
       (dec_int ''int'' v (MinDiskGigabytes (tmp p)))"
| "store T_MinRAMMegabytes v p =
     map_sum id (\<lambda>x. in_tmp (MinRAMMegabytes_update (\<lambda>_. x)) p)
       (dec_int ''int'' v (MinRAMMegabytes (tmp p)))"
| "store T_Owner v p = map_sum id (\<lambda>x. in_tmp (Owner_update (\<lambda>_. x)) p) (dec_string v (Owner (tmp p)))"
| "store T_Protected v p =
     map_sum id (\<lambda>x. in_tmp (Protected_update (\<lambda>_. x)) p) (dec_bool v (Protected (tmp p)))"
| "store T_Visibility v p =
     map_sum id (\<lambda>x. in_tmp (Visibility_update (\<lambda>_. x)) p) (dec_string v (Visibility (tmp p)))"
| "store T_Checksum v p =
     map_sum id (\<lambda>x. in_tmp (Checksum_update (\<lambda>_. x)) p) (dec_string v (Checksum (tmp p)))"
| "store T_Metadata v p =
     map_sum id (\<lambda>x. in_tmp (Metadata_update (\<lambda>_. x)) p) (dec_strmap v (Metadata (tmp p)))"
| "store T_Properties v p =
     map_sum id (\<lambda>x. in_tmp (Properties_update (\<lambda>_. x)) p) (dec_strmap v (Properties (tmp p)))"
| "store T_File v p = map_sum id (\<lambda>x. in_tmp (File_update (\<lambda>_. x)) p) (dec_string v (File (tmp p)))"
| "store T_Schema v p = map_sum id (\<lambda>x. in_tmp (Schema_update (\<lambda>_. x)) p) (dec_string v (Schema (tmp p)))"
| "store T_VirtualSize v p =
     map_sum id (\<lambda>x. in_tmp (VirtualSize_update (\<lambda>_. x)) p)
       (dec_int ''int64'' v (VirtualSize (tmp p)))"
| "store T_Self v p = map_sum id (\<lambda>x. in_tmp (Self_update (\<lambda>_. x)) p) (dec_string v (Self (tmp p)))"
| "store T_DirectURL v p =
     map_sum id (\<lambda>x. in_tmp (DirectURL_update (\<lambda>_. x)) p) (dec_string v (DirectURL (tmp p)))"
| "store T_Locations v p =
     map_sum id (\<lambda>x. in_tmp (Locations_update (\<lambda>_. x)) p) (dec_strings v (Locations (tmp p)))"
| "store P_SizeBytes v p = map_sum id (\<lambda>x. p\<lparr>p_SizeBytes := x\<rparr>) (to_iface v)"
| "store P_CreatedAt v p = map_sum id (\<lambda>x. p\<lparr>p_CreatedAt := x\<rparr>) (dec_string v (p_CreatedAt p))"
| "store P_UpdatedAt v p = map_sum id (\<lambda>x. p\<lparr>p_UpdatedAt := x\<rparr>) (dec_string v (p_UpdatedAt p))"

text \<open>
  The members of the object are decoded in wire order; a key that matches no field is
  skipped.  The decoder notes the first value that does not fit its field and reports it
  when the object is done; since \<open>UnmarshalJSON\<close> then drops the struct, the model stops
  at that value.
\<close>

fun decode_members :: "(string \<times> json) list \<Rightarrow> transient \<Rightarrow> error + transient" where
  "decode_members [] p = Inr p"
| "decode_members ((k, v) # kvs) p =
     (case match_field transient_fields k of
        None \<Rightarrow> decode_members kvs p
      | Some t \<Rightarrow>
          (case store t v p of
             Inl e \<Rightarrow> Inl e
           | Inr p' \<Rightarrow> decode_members kvs p'))"

text \<open>
  \<^verbatim>\<open>var p *struct{...}; err := json.Unmarshal(b, &p)\<close>: \<^verbatim>\<open>null\<close> leaves the pointer
  \<^verbatim>\<open>nil\<close> (\<open>None\<close>) without an error; an object allocates the struct and fills it.
\<close>

fun Unmarshal_transient :: "json \<Rightarrow> error + transient option" where
  "Unmarshal_transient JNull = Inr None"
| "Unmarshal_transient (JObject kvs) = map_sum id Some (decode_members kvs zero_transient)"
| "Unmarshal_transient v = Inl (UnmarshalTypeError v ''struct'')"

subsection \<open>jsonTagKeys\<close>

text \<open>\<^verbatim>\<open>strings.ToLower\<close> on a field name, an ASCII identifier.\<close>

definition to_lower :: "char \<Rightarrow> char" where
  "to_lower c =
     (case map_of (zip ''ABCDEFGHIJKLMNOPQRSTUVWXYZ'' ''abcdefghijklmnopqrstuvwxyz'') c of
        Some l \<Rightarrow> l
      | None \<Rightarrow> c)"

definition ToLower :: "string \<Rightarrow> string" where
  "ToLower s = map to_lower s"

fun jsonTagKeys :: "StructField list \<Rightarrow> string list" where
  "jsonTagKeys [] = []"
| "jsonTagKeys (StructField name tag # t) =
     (let key = (case tag of
                   Some tagValue \<Rightarrow> takeWhile (\<lambda>c. c \<noteq> CHR '','') tagValue
                 | None \<Rightarrow> [])
      in if tag \<noteq> None \<and> key = ''-'' then jsonTagKeys t
         else (if key = [] then ToLower name else key) # jsonTagKeys t)"

subsection \<open>unmarshalCustomProperties\<close>

text \<open>
  \<^verbatim>\<open>json.Unmarshal(b, &custom)\<close> into a \<^verbatim>\<open>map[string]interface{}\<close>: every member is
  stored under its key, a later member replacing an earlier one of the same key.
\<close>

fun decode_entries :: "(string \<times> json) list \<Rightarrow> (string \<rightharpoonup> iface) \<Rightarrow> error + (string \<rightharpoonup> iface)" where
  "decode_entries [] m = Inr m"
| "decode_entries ((k, v) # kvs) m =
     (case to_iface v of
        Inl e \<Rightarrow> Inl e
      | Inr x \<Rightarrow> decode_entries kvs (m(k \<mapsto> x)))"

fun Unmarshal_map :: "json \<Rightarrow> (string \<rightharpoonup> iface) option \<Rightarrow> error + (string \<rightharpoonup> iface) option" where
  "Unmarshal_map (JObject kvs) old =
     map_sum id Some (decode_entries kvs (case old of None \<Rightarrow> Map.empty | Some m \<Rightarrow> m))"
| "Unmarshal_map JNull old = Inr None"
| "Unmarshal_map v old = Inl (UnmarshalTypeError v ''map[string]interface {}'')"

definition delete_keys :: "string list \<Rightarrow> (string \<rightharpoonup> iface) \<Rightarrow> (string \<rightharpoonup> iface)" where
  "delete_keys fs custom = foldl (\<lambda>m f. m(f := None)) custom fs"

definition string_values :: "(string \<rightharpoonup> iface) \<Rightarrow> (string \<rightharpoonup> string)" where
  "string_values custom = (\<lambda>k. case custom k of Some (IString v) \<Rightarrow> Some v | _ \<Rightarrow> None)"

text \<open>
  The method updates the image in place and returns an error: the model returns the
  image after the call and the error.  \<open>st\<close> is the type of the struct passed for \<^verbatim>\<open>st\<close>.
\<close>

definition unmarshalCustomProperties ::
    "Image \<Rightarrow> json \<Rightarrow> StructField list \<Rightarrow> Image \<times> error option" where
  "unmarshalCustomProperties s b st =
     (case Unmarshal_map b (Some Map.empty) of
        Inl err \<Rightarrow> (s, Some err)
      | Inr custom \<Rightarrow>
          (let fs = jsonTagKeys Image_type @ jsonTagKeys st;
               custom' = (case custom of None \<Rightarrow> Map.empty | Some m \<Rightarrow> delete_keys fs m)
           in (s\<lparr>Properties := Some (string_values custom')\<rparr>, None)))"

subsection \<open>Image.UnmarshalJSON\<close>

definition time_Parse :: "string \<Rightarrow> time \<times> error option" where
  "time_Parse v = (case time_Parse_RFC3339 v of Inl e \<Rightarrow> (zero_time, Some e) | Inr t \<Rightarrow> (t, None))"

text \<open>
  The result is the image the receiver points to after the call, and the error returned;
  \<open>Inl\<close> is a panic.  JSON numbers reach the type switch as \<^verbatim>\<open>float64\<close> only.
\<close>

definition UnmarshalJSON :: "Image \<Rightarrow> json \<Rightarrow> panic + Image \<times> error option" where
  "UnmarshalJSON s b =
     (case Unmarshal_transient b of
        Inl err \<Rightarrow> Inr (s, Some err)
      | Inr None \<Rightarrow> Inl NilDereference
      | Inr (Some p) \<Rightarrow>
          (let s1 = tmp p in
           case p_SizeBytes p of
             INil \<Rightarrow> Inr (s1, None)
           | IFloat64 t \<Rightarrow>
               (let s2 = s1\<lparr>SizeBytes := int64_of_float64 t\<rparr>;
                    (created, err) = time_Parse (p_CreatedAt p);
                    s3 = s2\<lparr>CreatedAt := created\<rparr>
                in case err of
                     Some e \<Rightarrow> Inr (s3, Some e)
                   | None \<Rightarrow>
                       (let (updated, err') = time_Parse (p_UpdatedAt p);
                            s4 = s3\<lparr>UpdatedAt := updated\<rparr>
                        in Inr (unmarshalCustomProperties s4 b transient_type)))
           | t \<Rightarrow> Inr (s1, Some (UnknownSizeType (type_name t) t))))"

subsection \<open>The members a field is decoded from\<close>

text \<open>
  \<open>members_of t kvs\<close> are the values of the members of the object whose key the decoder
  matches to the field \<open>t\<close>, in wire order; \<open>member t kvs\<close> is the last of them, the one
  that decides the field, and \<open>None\<close> when the object has no member for the field.
\<close>

definition members_of :: "target \<Rightarrow> (string \<times> json) list \<Rightarrow> json list" where
  "members_of t kvs = map snd (filter (\<lambda>(k, v). match_field transient_fields k = Some t) kvs)"

definition member :: "target \<Rightarrow> (string \<times> json) list \<Rightarrow> json option" where
  "member t kvs = (case members_of t kvs of [] \<Rightarrow> None | v # vs \<Rightarrow> Some (last (v # vs)))"

subsection \<open>The known field set of an image\<close>

text \<open>
  The keys \<open>unmarshalCustomProperties\<close> deletes when it is called from \<open>UnmarshalJSON\<close>:
  the tag keys of \<open>Image\<close> and those of the transient struct.
\<close>

definition KnownFieldSet :: "string set" where
  "KnownFieldSet = set (jsonTagKeys Image_type @ jsonTagKeys transient_type)"

text \<open>The member of an object under a key is the last one when the key repeats.\<close>

definition top_level :: "(string \<times> json) list \<Rightarrow> string \<rightharpoonup> json" where
  "top_level kvs = map_of (rev kvs)"

text \<open>The field of \<open>Image\<close> behind a target, by the type of the field.\<close>

fun string_attr :: "target \<Rightarrow> (Image \<Rightarrow> string) option" where
  "string_attr T_ID = Some ID"
| "string_attr T_Name = Some Name"
| "string_attr T_Status = Some Status"
| "string_attr T_ContainerFormat = Some ContainerFormat"
| "string_attr T_DiskFormat = Some DiskFormat"
| "string_attr T_Owner = Some Owner"
| "string_attr T_Visibility = Some Visibility"
| "string_attr T_Checksum = Some Checksum"
| "string_attr T_File = Some File"
| "string_attr T_Schema = Some Schema"
| "string_attr T_Self = Some Self"
| "string_attr T_DirectURL = Some DirectURL"
| "string_attr _ = None"

fun int_attr :: "target \<Rightarrow> (Image \<Rightarrow> 64 word) option" where
  "int_attr T_MinDiskGigabytes = Some MinDiskGigabytes"
| "int_attr T_MinRAMMegabytes = Some MinRAMMegabytes"
| "int_attr T_VirtualSize = Some VirtualSize"
| "int_attr _ = None"

fun slice_attr :: "target \<Rightarrow> (Image \<Rightarrow> string_slice option) option" where
  "slice_attr T_Tags = Some Tags"
| "slice_attr T_Locations = Some Locations"
| "slice_attr _ = None"

text \<open>
  The values of the top-level members under a key, the payload without those members,
  and whether a key is among the properties of an image.
\<close>

definition key_members :: "string \<Rightarrow> (string \<times> json) list \<Rightarrow> json list" where
  "key_members key kvs = map snd (filter (\<lambda>(k, v). k = key) kvs)"

definition drop_key :: "string \<Rightarrow> (string \<times> json) list \<Rightarrow> (string \<times> json) list" where
  "drop_key key kvs = filter (\<lambda>(k, v). k \<noteq> key) kvs"

definition in_Properties :: "Image \<Rightarrow> string \<Rightarrow> bool" where
  "in_Properties s k \<longleftrightarrow> (case Properties s of None \<Rightarrow> False | Some ps \<Rightarrow> ps k \<noteq> None)"

section \<open>Pages\<close>

subsection \<open>The page types\<close>

text \<open>
  Modelled from the spec: \<^verbatim>\<open>pagination.LinkedPageBase\<close>, which is not among the sources.
  A page holds the body of the response, the error of the transport if there was one,
  and the URL the page was requested from.
\<close>

record LinkedPageBase =
  Body :: json
  Err :: "error option"
  URL :: string

text \<open>
  A value of the interface \<^verbatim>\<open>pagination.Page\<close> is one of the two page types declared
  here, a value of another type that implements the interface (kept by the name of its
  type), or the \<^verbatim>\<open>nil\<close> interface.
\<close>

datatype Page =
    ImagePage LinkedPageBase
  | VolumePage LinkedPageBase
  | OtherPage string LinkedPageBase
  | NilPage

subsection \<open>ExtractInto\<close>

text \<open>
  Modelled from the spec: \<^verbatim>\<open>Result.ExtractInto\<close> of the gophercloud package, which is not
  among the sources, for a target struct with one field that holds a collection.  A
  transport error is returned as it is, without decoding.  A body that is not an object
  is malformed.  The named array is located in the body and each element is decoded
  independently; a failure on any element fails the whole call, with no partial result.
  A field that is absent or null leaves the target empty; any other value that is not an
  array is a type mismatch.
\<close>

fun decode_all :: "(json \<Rightarrow> panic + 'a \<times> error option) \<Rightarrow> json list \<Rightarrow> panic + error + 'a list" where
  "decode_all dec [] = Inr (Inr [])"
| "decode_all dec (v # vs) =
     (case dec v of
        Inl pn \<Rightarrow> Inl pn
      | Inr (x, Some e) \<Rightarrow> Inr (Inl e)
      | Inr (x, None) \<Rightarrow>
          (case decode_all dec vs of
             Inl pn \<Rightarrow> Inl pn
           | Inr (Inl e) \<Rightarrow> Inr (Inl e)
           | Inr (Inr xs) \<Rightarrow> Inr (Inr (x # xs))))"

definition ExtractInto_collection ::
    "LinkedPageBase \<Rightarrow> string \<Rightarrow> (json \<Rightarrow> panic + 'a \<times> error option) \<Rightarrow>
     panic + 'a list \<times> error option" where
  "ExtractInto_collection r name dec =
     (case Err r of
        Some e \<Rightarrow> Inr ([], Some e)
      | None \<Rightarrow>
          (case Body r of
             JObject kvs \<Rightarrow>
               (case top_level kvs name of
                  None \<Rightarrow> Inr ([], None)
                | Some JNull \<Rightarrow> Inr ([], None)
                | Some (JArray vs) \<Rightarrow>
                    (case decode_all dec vs of
                       Inl pn \<Rightarrow> Inl pn
                     | Inr (Inl e) \<Rightarrow> Inr ([], Some e)
                     | Inr (Inr xs) \<Rightarrow> Inr (xs, None))
                | Some v \<Rightarrow> Inr ([], Some (TypeMismatch name v)))
           | b \<Rightarrow> Inr ([], Some (MalformedPayload b))))"

text \<open>
  Modelled from the spec: \<^verbatim>\<open>Result.ExtractInto\<close> for a target struct with one string
  field, the simpler path for a sub-projection such as the \<^verbatim>\<open>next\<close> link.  An absent or
  null field leaves the empty string.
\<close>

definition string_field :: "(string \<times> json) list \<Rightarrow> string \<Rightarrow> string \<times> error option" where
  "string_field kvs name =
     (case top_level kvs name of
        None \<Rightarrow> ([], None)
      | Some JNull \<Rightarrow> ([], None)
      | Some (JString x) \<Rightarrow> (x, None)
      | Some v \<Rightarrow> ([], Some (TypeMismatch name v)))"

definition ExtractInto_string :: "LinkedPageBase \<Rightarrow> string \<Rightarrow> string \<times> error option" where
  "ExtractInto_string r name =
     (case Err r of
        Some e \<Rightarrow> ([], Some e)
      | None \<Rightarrow>
          (case Body r of
             JObject kvs \<Rightarrow> string_field kvs name
           | b \<Rightarrow> ([], Some (MalformedPayload b))))"

subsection \<open>Image pages\<close>

text \<open>
  \<^verbatim>\<open>ExtractImages\<close> asserts that its page is an \<^verbatim>\<open>ImagePage\<close> and extracts into
  \<^verbatim>\<open>struct { Images []Image `json:"images"` }\<close>; each element is decoded by
  \<open>UnmarshalJSON\<close> into a fresh image.  It returns the slice and the error, both.
\<close>

definition ExtractImages :: "Page \<Rightarrow> panic + Image list \<times> error option" where
  "ExtractImages r =
     (case r of
        ImagePage lp \<Rightarrow> ExtractInto_collection lp ''images'' (UnmarshalJSON zero_Image)
      | _ \<Rightarrow> Inl (TypeAssertion ''images.ImagePage''))"

definition ImagePage_IsEmpty :: "LinkedPageBase \<Rightarrow> panic + bool \<times> error option" where
  "ImagePage_IsEmpty r =
     (case ExtractImages (ImagePage r) of
        Inl pn \<Rightarrow> Inl pn
      | Inr (images, err) \<Rightarrow> Inr (length images = 0, err))"

text \<open>
  Modelled from the spec: \<^verbatim>\<open>nextPageURL\<close> of the images package, which is not among the
  sources.  An empty \<^verbatim>\<open>next\<close> marks the last page and gives the empty locator; any
  other is resolved against the URL of the current page, by \<open>resolve\<close>, which the spec
  leaves open.
\<close>

definition nextPageURL :: "(string \<Rightarrow> string \<Rightarrow> string) \<Rightarrow> string \<Rightarrow> string \<Rightarrow> string" where
  "nextPageURL resolve currentURL next = (if next = [] then [] else resolve currentURL next)"

definition ImagePage_NextPageURL ::
    "(string \<Rightarrow> string \<Rightarrow> string) \<Rightarrow> LinkedPageBase \<Rightarrow> string \<times> error option" where
  "ImagePage_NextPageURL resolve r =
     (case ExtractInto_string r ''next'' of
        (next, Some err) \<Rightarrow> ([], Some err)
      | (next, None) \<Rightarrow> (nextPageURL resolve (URL r) next, None))"

subsection \<open>Volume pages\<close>

record Attachment =
  AttachedAt :: time
  AttachmentID :: string
  Device :: string
  HostName :: string
  Attachment_ID :: string
  ServerID :: string
  VolumeID :: string

record Volume =
  Volume_ID :: string
  Volume_Status :: string
  Size :: "64 word"
  AvailabilityZone :: string
  Volume_CreatedAt :: time
  Volume_UpdatedAt :: time
  Attachments :: "Attachment list option"
  Volume_Name :: string
  Description :: string
  VolumeType :: string
  SnapshotID :: string
  SourceVolID :: string
  Volume_Metadata :: "(string \<rightharpoonup> string) option"
  UserID :: string
  Bootable :: string
  Encrypted :: bool
  ReplicationStatus :: string
  ConsistencyGroupID :: string
  Multiattach :: bool
  VolumeImageMetadata :: "(string \<rightharpoonup> iface) option"

text \<open>
  \<^verbatim>\<open>ExtractVolumes\<close> asserts that its page is a \<^verbatim>\<open>VolumePage\<close> and extracts into
  \<^verbatim>\<open>struct { Volumes []Volume `json:"volumes"` }\<close>.  The decoding of one volume depends
  on \<^verbatim>\<open>gophercloud.JSONRFC3339MilliNoZ\<close>, which is not among the sources, and is the
  parameter \<open>unmarshal\<close>.
\<close>

definition ExtractVolumes ::
    "(json \<Rightarrow> panic + Volume \<times> error option) \<Rightarrow> Page \<Rightarrow> panic + Volume list \<times> error option" where
  "ExtractVolumes unmarshal r =
     (case r of
        VolumePage lp \<Rightarrow> ExtractInto_collection lp ''volumes'' unmarshal
      | _ \<Rightarrow> Inl (TypeAssertion ''volumes.VolumePage''))"

definition VolumePage_IsEmpty ::
    "(json \<Rightarrow> panic + Volume \<times> error option) \<Rightarrow> LinkedPageBase \<Rightarrow> panic + bool \<times> error option" where
  "VolumePage_IsEmpty unmarshal r =
     (case ExtractVolumes unmarshal (VolumePage r) of
        Inl pn \<Rightarrow> Inl pn
      | Inr (volumes, err) \<Rightarrow> Inr (length volumes = 0, err))"

text \<open>
  Modelled from the spec: \<^verbatim>\<open>gophercloud.Link\<close> and \<^verbatim>\<open>gophercloud.ExtractNextURL\<close>, which
  are not among the sources.  The pagination metadata of a volume page is an array of
  pairs of \<^verbatim>\<open>rel\<close> and \<^verbatim>\<open>href\<close>, from which the \<^verbatim>\<open>next\<close> relation is extracted; without
  one the locator is empty, and that is no error.
\<close>

record Link =
  Href :: string
  Rel :: string

definition unmarshal_Link :: "json \<Rightarrow> panic + Link \<times> error option" where
  "unmarshal_Link v =
     (case v of
        JObject kvs \<Rightarrow>
          (case string_field kvs ''href'' of
             (h, Some e) \<Rightarrow> Inr (\<lparr>Href = [], Rel = []\<rparr>, Some e)
           | (h, None) \<Rightarrow>
               (case string_field kvs ''rel'' of
                  (r, Some e) \<Rightarrow> Inr (\<lparr>Href = h, Rel = []\<rparr>, Some e)
                | (r, None) \<Rightarrow> Inr (\<lparr>Href = h, Rel = r\<rparr>, None)))
      | _ \<Rightarrow> Inr (\<lparr>Href = [], Rel = []\<rparr>, Some (MalformedPayload v)))"

definition ExtractNextURL :: "Link list \<Rightarrow> string \<times> error option" where
  "ExtractNextURL links =
     (case filter (\<lambda>l. Rel l = ''next'') links of
        [] \<Rightarrow> ([], None)
      | l # _ \<Rightarrow> (Href l, None))"

definition VolumePage_NextPageURL :: "LinkedPageBase \<Rightarrow> panic + string \<times> error option" where
  "VolumePage_NextPageURL page =
     (case ExtractInto_collection page ''volumes_links'' unmarshal_Link of
        Inl pn \<Rightarrow> Inl pn
      | Inr (links, Some err) \<Rightarrow> Inr ([], Some err)
      | Inr (links, None) \<Rightarrow> Inr (ExtractNextURL links))"

subsection \<open>isEmpty as the spec words it\<close>

text \<open>
  The page's embedded entity collection, as the collection extractor gives it, has zero
  elements; the error is the extractor's.
\<close>

definition spec_isEmpty ::
    "(Page \<Rightarrow> panic + 'a list \<times> error option) \<Rightarrow> Page \<Rightarrow> panic + bool \<times> error option" where
  "spec_isEmpty extract page =
     (case extract page of
        Inl pn \<Rightarrow> Inl pn
      | Inr (entities, err) \<Rightarrow> Inr (entities = [], err))"

subsection \<open>Example payloads\<close>

text \<open>An active image as the image service lists it, with two keys of the caller's own.\<close>

definition active_image :: "(string \<times> json) list" where
  "active_image =
     [(''id'', JString ''abc''),
      (''name'', JString ''cirros''),
      (''size'', JNumber (IntLit 1073741824)),
      (''created_at'', JString ''2016-01-05T10:20:30Z''),
      (''updated_at'', JString ''2016-01-05T10:20:31Z''),
      (''hw_disk_bus'', JString ''scsi''),
      (''os_hidden'', JBool False),
      (''tmp'', JString ''x'')]"

definition t_10_20_30 :: time where
  "t_10_20_30 = \<lparr>year = 2016, month = 1, day = 5, hour = 10, minute = 20, second = 30,
     nanosecond = 0, zone_offset = 0\<rparr>"

text \<open>A queued image: the service reports no size yet.\<close>

definition queued_image :: "(string \<times> json) list" where
  "queued_image =
     [(''id'', JString ''abc''),
      (''status'', JString ''queued''),
      (''size'', JNull),
      (''created_at'', JString ''2016-01-05T10:20:30Z''),
      (''hw_disk_bus'', JString ''scsi'')]"

text \<open>A payload without size that carries a \<^verbatim>\<open>properties\<close> object.\<close>

definition nested_properties_image :: "(string \<times> json) list" where
  "nested_properties_image =
     [(''tmp'', JString ''x''),
      (''properties'', JObject [(''tmp'', JString ''y'')])]"

text \<open>Payloads with a size and without a well-formed pair of timestamps.\<close>

definition size_only_image :: "(string \<times> json) list" where
  "size_only_image = [(''size'', JNumber (IntLit 1073741824))]"

definition bad_created_image :: "(string \<times> json) list" where
  "bad_created_image =
     [(''size'', JNumber (IntLit 1073741824)),
      (''created_at'', JString ''yesterday'')]"

definition bad_updated_image :: "(string \<times> json) list" where
  "bad_updated_image =
     [(''size'', JNumber (IntLit 1073741824)),
      (''created_at'', JString ''2016-01-05T10:20:30Z''),
      (''updated_at'', JString ''yesterday'')]"

definition bad_created_queued_image :: "(string \<times> json) list" where
  "bad_created_queued_image = [(''created_at'', JString ''yesterday'')]"

text \<open>The size as a literal with a fraction, as null, and as a string.\<close>

definition float_size_image :: "(string \<times> json) list" where
  "float_size_image =
     [(''size'', JNumber (FloatLit 10737418240 (- 1))),
      (''created_at'', JString ''2016-01-05T10:20:30Z'')]"

definition null_size_image :: "(string \<times> json) list" where
  "null_size_image = [(''size'', JNull)]"

definition string_size_image :: "(string \<times> json) list" where
  "string_size_image = [(''size'', JString ''1073741824'')]"

text \<open>A \<^verbatim>\<open>created_at\<close> with a one-digit hour.\<close>

definition short_hour_image :: "(string \<times> json) list" where
  "short_hour_image =
     [(''size'', JNumber (IntLit 1073741824)),
      (''created_at'', JString ''2016-01-05T1:20:30Z'')]"

text \<open>A size beyond the range of float64.\<close>

definition huge_size_image :: "(string \<times> json) list" where
  "huge_size_image = [(''size'', JNumber (FloatLit 1 400))]"

subsection \<open>Example pages\<close>

definition page_of :: "json \<Rightarrow> LinkedPageBase" where
  "page_of b = \<lparr>Body = b, Err = None, URL = ''http://glance:9292/v2/images''\<rparr>"

text \<open>A last page with no images, a page with one, and a page whose second image is bad.\<close>

definition empty_image_page :: LinkedPageBase where
  "empty_image_page = page_of (JObject [(''images'', JArray []), (''next'', JString [])])"

definition one_image_page :: LinkedPageBase where
  "one_image_page = page_of (JObject [(''images'', JArray [JObject active_image])])"

definition bad_image_page :: LinkedPageBase where
  "bad_image_page =
     page_of (JObject [(''images'',
       JArray [JObject active_image, JObject bad_created_image, JObject active_image])])"

definition failed_page :: LinkedPageBase where
  "failed_page = (page_of JNull)\<lparr>Err := Some (TransportError ''connection refused'')\<rparr>"

text \<open>
  Volume pages.  For them an element decoder is needed; this one takes any object as the
  zero volume and refuses everything else.
\<close>

definition zero_Volume :: Volume where
  "zero_Volume =
     \<lparr>Volume_ID = [], Volume_Status = [], Size = 0, AvailabilityZone = [],
      Volume_CreatedAt = zero_time, Volume_UpdatedAt = zero_time, Attachments = None,
      Volume_Name = [], Description = [], VolumeType = [], SnapshotID = [], SourceVolID = [],
      Volume_Metadata = None, UserID = [], Bootable = [], Encrypted = False,
      ReplicationStatus = [], ConsistencyGroupID = [], Multiattach = False,
      VolumeImageMetadata = None\<rparr>"

definition objects_only :: "json \<Rightarrow> panic + Volume \<times> error option" where
  "objects_only v =
     (case v of
        JObject kvs \<Rightarrow> Inr (zero_Volume, None)
      | _ \<Rightarrow> Inr (zero_Volume, Some (UnmarshalTypeError v ''volumes.Volume'')))"

definition bad_volume_page :: LinkedPageBase where
  "bad_volume_page =
     page_of (JObject [(''volumes'', JArray [JObject [], JString ''vol-2'', JObject []])])"

definition last_volume_page :: LinkedPageBase where
  "last_volume_page =
     page_of (JObject
       [(''volumes'', JArray [JObject []]),
        (''volumes_links'',
           JArray [JObject [(''rel'', JString ''previous''),
                            (''href'', JString ''http://cinder:8776/v2/volumes?marker=1'')]])])"

text \<open>Sizes with and without a fraction, and an image with a \<^verbatim>\<open>properties\<close> object.\<close>

definition fraction_size_image :: "(string \<times> json) list" where
  "fraction_size_image =
     [(''size'', JNumber (FloatLit 15 (- 1))),
      (''created_at'', JString ''2016-01-05T10:20:30Z''),
      (''updated_at'', JString ''2016-01-05T10:20:30Z'')]"

definition properties_image :: "(string \<times> json) list" where
  "properties_image =
     [(''size'', JNumber (IntLit 1073741824)),
      (''created_at'', JString ''2016-01-05T10:20:30Z''),
      (''updated_at'', JString ''2016-01-05T10:20:30Z''),
      (''properties'', JObject [(''architecture'', JString ''x86_64'')])]"

section \<open>Properties of the decoder\<close>

subsection \<open>Sums\<close>

lemma map_sum_id_Inr: "map_sum id f x = Inr y \<longleftrightarrow> (\<exists>a. x = Inr a \<and> y = f a)"
  by (cases x) auto

lemma map_sum_id_Inl: "map_sum id f x = Inl e \<longleftrightarrow> x = Inl e"
  by (cases x) auto

subsection \<open>The known field names\<close>

lemma jsonTagKeys_Image:
  "jsonTagKeys Image_type =
     [''id'', ''name'', ''status'', ''tags'', ''container_format'', ''disk_format'', ''min_disk'',
      ''min_ram'', ''owner'', ''protected'', ''visibility'', ''checksum'', ''size'', ''metadata'',
      ''properties'', ''file'', ''schema'', ''virtual_size'', ''self'', ''direct_url'', ''locations'']"
  by (simp add: Image_type_def Let_def)

lemma jsonTagKeys_transient:
  "jsonTagKeys transient_type = [''tmp'', ''size'', ''created_at'', ''updated_at'']"
  by (simp add: transient_type_def ToLower_def to_lower_def Let_def)

subsection \<open>A store writes one field\<close>

lemma store_size_other:
  "store t v p = Inr p' \<Longrightarrow> t \<noteq> P_SizeBytes \<Longrightarrow> p_SizeBytes p' = p_SizeBytes p"
  by (cases t) (auto simp: map_sum_id_Inr in_tmp_def)

lemma store_created_other:
  "store t v p = Inr p' \<Longrightarrow> t \<noteq> P_CreatedAt \<Longrightarrow> p_CreatedAt p' = p_CreatedAt p"
  by (cases t) (auto simp: map_sum_id_Inr in_tmp_def)

lemma store_updated_other:
  "store t v p = Inr p' \<Longrightarrow> t \<noteq> P_UpdatedAt \<Longrightarrow> p_UpdatedAt p' = p_UpdatedAt p"
  by (cases t) (auto simp: map_sum_id_Inr in_tmp_def)

lemma store_properties_other:
  "store t v p = Inr p' \<Longrightarrow> t \<noteq> T_Properties \<Longrightarrow> Properties (tmp p') = Properties (tmp p)"
  by (cases t) (auto simp: map_sum_id_Inr in_tmp_def)

lemma store_times:
  "store t v p = Inr p' \<Longrightarrow>
     CreatedAt (tmp p') = CreatedAt (tmp p) \<and> UpdatedAt (tmp p') = UpdatedAt (tmp p)"
  by (cases t) (auto simp: map_sum_id_Inr in_tmp_def)

lemma store_tmp_size:
  "store t v p = Inr p' \<Longrightarrow> SizeBytes (tmp p') = SizeBytes (tmp p)"
  by (cases t) (auto simp: map_sum_id_Inr in_tmp_def)

subsection \<open>The member that decides a field\<close>

lemma member_Nil: "member t [] = None"
  by (simp add: member_def members_of_def)

lemma member_Cons:
  "member t ((k, v) # kvs) =
     (case member t kvs of
        Some x \<Rightarrow> Some x
      | None \<Rightarrow> if match_field transient_fields k = Some t then Some v else None)"
  by (auto simp: member_def members_of_def split: list.splits)

lemma decode_members_Cons_Inr:
  assumes "decode_members ((k, v) # kvs) p = Inr p'"
  obtains (skip) "match_field transient_fields k = None" "decode_members kvs p = Inr p'"
  | (store) t q where "match_field transient_fields k = Some t" "store t v p = Inr q"
      "decode_members kvs q = Inr p'"
  using assms by (auto split: option.splits sum.splits)

text \<open>A quantity that only the stores of \<open>t0\<close> change is left alone when \<open>t0\<close> has no member.\<close>

lemma decode_members_absent:
  assumes frame: "\<And>t v p p'. store t v p = Inr p' \<Longrightarrow> t \<noteq> t0 \<Longrightarrow> g p' = g p"
  shows "decode_members kvs p = Inr p' \<Longrightarrow> member t0 kvs = None \<Longrightarrow> g p' = g p"
proof (induction kvs arbitrary: p)
  case Nil
  then show ?case by simp
next
  case (Cons kv kvs)
  obtain k v where kv: "kv = (k, v)" by (cases kv)
  from Cons.prems(2) kv have rest: "member t0 kvs = None"
    and here: "match_field transient_fields k \<noteq> Some t0"
    by (auto simp: member_Cons split: option.splits if_splits)
  from Cons.prems(1) [unfolded kv] show ?case
  proof (cases rule: decode_members_Cons_Inr)
    case skip
    with Cons.IH rest show ?thesis by simp
  next
    case (store t q)
    with here have "t \<noteq> t0" by simp
    from frame [OF store(2) this] Cons.IH [OF store(3) rest] show ?thesis by simp
  qed
qed

text \<open>What the last store of \<open>t0\<close> establishes holds at the end.\<close>

lemma decode_members_present:
  assumes frame: "\<And>t v p p'. store t v p = Inr p' \<Longrightarrow> t \<noteq> t0 \<Longrightarrow> g p' = g p"
    and hit: "\<And>v p p'. store t0 v p = Inr p' \<Longrightarrow> R v (g p')"
  shows "decode_members kvs p = Inr p' \<Longrightarrow> member t0 kvs = Some v \<Longrightarrow> R v (g p')"
proof (induction kvs arbitrary: p)
  case Nil
  then show ?case by (simp add: member_Nil)
next
  case (Cons kv kvs)
  obtain k w where kv: "kv = (k, w)" by (cases kv)
  show ?case
  proof (cases "member t0 kvs")
    case (Some x)
    with Cons.prems(2) kv have x: "x = v" by (simp add: member_Cons)
    from Cons.prems(1) [unfolded kv] show ?thesis
      by (cases rule: decode_members_Cons_Inr) (use Cons.IH Some x in auto)
  next
    case None
    with Cons.prems(2) kv have m: "match_field transient_fields k = Some t0" and w: "w = v"
      by (auto simp: member_Cons split: if_splits)
    from Cons.prems(1) [unfolded kv] show ?thesis
    proof (cases rule: decode_members_Cons_Inr)
      case skip
      with m show ?thesis by simp
    next
      case (store t q)
      with m w have "store t0 v p = Inr q" by simp
      from hit [OF this] decode_members_absent [of t0 g, OF frame store(3) None]
      show ?thesis by simp
    qed
  qed
qed

lemma decode_members_times:
  "decode_members kvs p = Inr p' \<Longrightarrow>
     CreatedAt (tmp p') = CreatedAt (tmp p) \<and> UpdatedAt (tmp p') = UpdatedAt (tmp p)"
proof (induction kvs arbitrary: p)
  case Nil
  then show ?case by simp
next
  case (Cons kv kvs)
  obtain k v where kv: "kv = (k, v)" by (cases kv)
  from Cons.prems [unfolded kv] show ?case
  proof (cases rule: decode_members_Cons_Inr)
    case skip
    with Cons.IH show ?thesis by simp
  next
    case (store t q)
    from store_times [OF store(2)] Cons.IH [OF store(3)] show ?thesis by simp
  qed
qed

lemma decode_members_size_absent:
  "decode_members kvs p = Inr p' \<Longrightarrow> member P_SizeBytes kvs = None \<Longrightarrow>
     p_SizeBytes p' = p_SizeBytes p"
  by (rule decode_members_absent [of P_SizeBytes p_SizeBytes]) (rule store_size_other)

lemma decode_members_size_present:
  "decode_members kvs p = Inr p' \<Longrightarrow> member P_SizeBytes kvs = Some v \<Longrightarrow>
     to_iface v = Inr (p_SizeBytes p')"
  by (rule decode_members_present
        [of P_SizeBytes p_SizeBytes "\<lambda>v x. to_iface v = Inr x"])
     (auto simp: map_sum_id_Inr dest: store_size_other)

lemma decode_members_created_absent:
  "decode_members kvs p = Inr p' \<Longrightarrow> member P_CreatedAt kvs = None \<Longrightarrow>
     p_CreatedAt p' = p_CreatedAt p"
  by (rule decode_members_absent [of P_CreatedAt p_CreatedAt]) (rule store_created_other)

lemma store_created_hit:
  "store P_CreatedAt v p = Inr p' \<Longrightarrow> v = JString c \<Longrightarrow> p_CreatedAt p' = c"
  by (simp add: map_sum_id_Inr) auto

lemma decode_members_created_present:
  assumes "decode_members kvs p = Inr p'" and "member P_CreatedAt kvs = Some (JString c)"
  shows "p_CreatedAt p' = c"
proof -
  have "JString c = JString c \<longrightarrow> p_CreatedAt p' = c"
  proof (rule decode_members_present
      [of P_CreatedAt p_CreatedAt "\<lambda>v x. v = JString c \<longrightarrow> x = c", OF _ _ assms])
    show "\<And>t v p p'. store t v p = Inr p' \<Longrightarrow> t \<noteq> P_CreatedAt \<Longrightarrow> p_CreatedAt p' = p_CreatedAt p"
      by (rule store_created_other)
    show "\<And>v p p'. store P_CreatedAt v p = Inr p' \<Longrightarrow> v = JString c \<longrightarrow> p_CreatedAt p' = c"
      using store_created_hit by blast
  qed
  then show ?thesis by simp
qed

lemma decode_members_properties_absent:
  "decode_members kvs p = Inr p' \<Longrightarrow> member T_Properties kvs = None \<Longrightarrow>
     Properties (tmp p') = Properties (tmp p)"
  by (rule decode_members_absent [of T_Properties "\<lambda>p. Properties (tmp p)"])
     (rule store_properties_other)

subsection \<open>The custom properties\<close>

lemma to_iface_IString: "to_iface v = Inr (IString s) \<longleftrightarrow> v = JString s"
  by (cases v) (auto split: option.splits sum.splits)

lemma to_iface_INil: "to_iface v = Inr INil \<longleftrightarrow> v = JNull"
  by (cases v) (auto split: option.splits sum.splits)

lemma to_iface_IFloat64:
  "to_iface v = Inr (IFloat64 f) \<longleftrightarrow> (\<exists>n. v = JNumber n \<and> ParseFloat n = Some f)"
  by (cases v) (auto split: option.splits sum.splits)

lemma map_of_rev_Cons:
  "map_of (rev ((k', v) # kvs)) k =
     (case map_of (rev kvs) k of Some x \<Rightarrow> Some x | None \<Rightarrow> if k = k' then Some v else None)"
  by (simp add: map_add_def split: option.splits)

lemma decode_entries_lookup:
  "decode_entries kvs m = Inr m' \<Longrightarrow>
     m' k = (case map_of (rev kvs) k of
               None \<Rightarrow> m k
             | Some v \<Rightarrow> (case to_iface v of Inr x \<Rightarrow> Some x | Inl e \<Rightarrow> None))"
proof (induction kvs arbitrary: m)
  case Nil
  then show ?case by simp
next
  case (Cons kv kvs)
  obtain k' v where kv: "kv = (k', v)" by (cases kv)
  from Cons.prems kv obtain x where x: "to_iface v = Inr x"
    and rest: "decode_entries kvs (m(k' \<mapsto> x)) = Inr m'"
    by (auto split: sum.splits)
  show ?case
    unfolding kv map_of_rev_Cons Cons.IH [OF rest]
    by (simp add: x split: option.splits)
qed

lemma delete_keys_apply: "delete_keys fs m k = (if k \<in> set fs then None else m k)"
  unfolding delete_keys_def by (induction fs arbitrary: m) auto

lemma string_values_Some:
  "string_values m k = Some v \<longleftrightarrow> m k = Some (IString v)"
  by (auto simp: string_values_def split: option.splits iface.splits)

lemma unmarshalCustomProperties_object:
  assumes "unmarshalCustomProperties s (JObject kvs) st = (s', None)"
  shows "\<exists>ps. s' = s\<lparr>Properties := Some ps\<rparr> \<and>
           (\<forall>k v. ps k = Some v \<longleftrightarrow>
                  k \<notin> set (jsonTagKeys Image_type @ jsonTagKeys st) \<and>
                  map_of (rev kvs) k = Some (JString v))"
proof -
  from assms obtain m where m: "decode_entries kvs Map.empty = Inr m"
    and s': "s' = s\<lparr>Properties :=
        Some (string_values (delete_keys (jsonTagKeys Image_type @ jsonTagKeys st) m))\<rparr>"
    by (auto simp: unmarshalCustomProperties_def map_sum_id_Inr Let_def split: sum.splits)
  have "string_values (delete_keys (jsonTagKeys Image_type @ jsonTagKeys st) m) k = Some v \<longleftrightarrow>
          k \<notin> set (jsonTagKeys Image_type @ jsonTagKeys st) \<and>
          map_of (rev kvs) k = Some (JString v)" for k v
    unfolding string_values_Some delete_keys_apply decode_entries_lookup [OF m]
    by (auto simp: to_iface_IString split: option.splits sum.splits)
  with s' show ?thesis by blast
qed

lemma unmarshalCustomProperties_frame:
  "unmarshalCustomProperties s b st = (s', err) \<Longrightarrow> \<exists>m. s' = s\<lparr>Properties := m\<rparr>"
  by (cases "Unmarshal_map b (Some Map.empty)")
     (auto simp: unmarshalCustomProperties_def Let_def intro: exI [of _ "Properties s"])

subsection \<open>The paths through UnmarshalJSON\<close>

lemma UnmarshalJSON_error:
  "decode_members kvs zero_transient = Inl e \<Longrightarrow> UnmarshalJSON s (JObject kvs) = Inr (s, Some e)"
  by (simp add: UnmarshalJSON_def)

lemma UnmarshalJSON_nil:
  "decode_members kvs zero_transient = Inr p \<Longrightarrow> p_SizeBytes p = INil \<Longrightarrow>
     UnmarshalJSON s (JObject kvs) = Inr (tmp p, None)"
  by (simp add: UnmarshalJSON_def)

lemma UnmarshalJSON_other:
  "decode_members kvs zero_transient = Inr p \<Longrightarrow> p_SizeBytes p = x \<Longrightarrow>
     x \<noteq> INil \<Longrightarrow> (\<And>f. x \<noteq> IFloat64 f) \<Longrightarrow>
     UnmarshalJSON s (JObject kvs) = Inr (tmp p, Some (UnknownSizeType (type_name x) x))"
  by (cases x) (auto simp: UnmarshalJSON_def)

lemma UnmarshalJSON_float_bad_created:
  "decode_members kvs zero_transient = Inr p \<Longrightarrow> p_SizeBytes p = IFloat64 f \<Longrightarrow>
     time_Parse_RFC3339 (p_CreatedAt p) = Inl e \<Longrightarrow>
     UnmarshalJSON s (JObject kvs) =
       Inr ((tmp p)\<lparr>SizeBytes := int64_of_float64 f, CreatedAt := zero_time\<rparr>, Some e)"
  by (simp add: UnmarshalJSON_def time_Parse_def)

lemma UnmarshalJSON_float_created:
  "decode_members kvs zero_transient = Inr p \<Longrightarrow> p_SizeBytes p = IFloat64 f \<Longrightarrow>
     time_Parse_RFC3339 (p_CreatedAt p) = Inr c \<Longrightarrow>
     UnmarshalJSON s (JObject kvs) =
       Inr (unmarshalCustomProperties
              ((tmp p)\<lparr>SizeBytes := int64_of_float64 f, CreatedAt := c,
                 UpdatedAt := fst (time_Parse (p_UpdatedAt p))\<rparr>)
              (JObject kvs) transient_type)"
  by (simp add: UnmarshalJSON_def time_Parse_def split: prod.splits sum.splits)

lemma time_Parse_RFC3339_error:
  "time_Parse_RFC3339 v = Inl e \<Longrightarrow> e = TimeParseError v"
  by (auto simp: time_Parse_RFC3339_def split: option.splits prod.splits)

lemma Unmarshal_transient_object:
  "Unmarshal_transient (JObject kvs) = Inr (Some p) \<longleftrightarrow> decode_members kvs zero_transient = Inr p"
  by (auto simp: map_sum_id_Inr)

lemma UnmarshalJSON_success_float:
  assumes ok: "UnmarshalJSON s (JObject kvs) = Inr (s', None)"
    and size: "member P_SizeBytes kvs = Some v" and v: "v \<noteq> JNull"
  obtains p f c where "decode_members kvs zero_transient = Inr p"
    and "p_SizeBytes p = IFloat64 f"
    and "time_Parse_RFC3339 (p_CreatedAt p) = Inr c"
    and "unmarshalCustomProperties
           ((tmp p)\<lparr>SizeBytes := int64_of_float64 f, CreatedAt := c,
              UpdatedAt := fst (time_Parse (p_UpdatedAt p))\<rparr>)
           (JObject kvs) transient_type = (s', None)"
proof -
  from ok obtain p where p: "decode_members kvs zero_transient = Inr p"
    by (cases "decode_members kvs zero_transient") (auto simp: UnmarshalJSON_error)
  from decode_members_size_present [OF p size] have iv: "to_iface v = Inr (p_SizeBytes p)" .
  with v have nn: "p_SizeBytes p \<noteq> INil" by (auto simp: to_iface_INil)
  have "\<exists>f. p_SizeBytes p = IFloat64 f"
  proof (rule ccontr)
    assume "\<not> ?thesis"
    then have "\<And>f. p_SizeBytes p \<noteq> IFloat64 f" by blast
    from UnmarshalJSON_other [OF p refl nn this] ok show False by simp
  qed
  then obtain f where f: "p_SizeBytes p = IFloat64 f" ..
  show thesis
  proof (cases "time_Parse_RFC3339 (p_CreatedAt p)")
    case (Inl e)
    from UnmarshalJSON_float_bad_created [OF p f Inl] ok show ?thesis by simp
  next
    case (Inr c)
    from UnmarshalJSON_float_created [OF p f Inr] ok that [OF p f Inr] show ?thesis by simp
  qed
qed

subsection \<open>Evaluating the examples\<close>

lemma bitlen_2_30: "bitlen 1073741824 = 31"
  by (simp add: bitlen.simps)

lemma binade_2_30: "binade 1073741824 = - 22"
  by (simp add: binade_def bitlen_2_30 scale_def)

lemma scale_2_30: "scale 1073741824 (- 22) = 4503599627370496"
  by (simp add: scale_def)

lemma round_half_even_int: "round_half_even (of_int i) = i"
  by (simp add: round_half_even_def)

lemma round_float64_2_30: "round_float64 1073741824 = Some (F64 4503599627370496 (- 22))"
  using round_half_even_int [of 4503599627370496]
  by (simp add: round_float64_def binade_2_30 scale_2_30)

lemma ParseFloat_2_30: "ParseFloat (IntLit 1073741824) = Some (F64 4503599627370496 (- 22))"
  by (simp add: ParseFloat_def value_of_def round_float64_2_30)

lemma int64_2_30: "int64_of_float64 (F64 4503599627370496 (- 22)) = 1073741824"
  by (simp add: int64_of_float64_def trunc_float64_def in_int64_def)

lemmas time_parse_defs =
  time_Parse_RFC3339_def parse_date_def parse_clock_def parse_zone_def parse_fraction_def
  getnum_def long_year_def atoi_def is_digit_def digit_val_def daysIn_def leap_year_def

lemma time_Parse_10_20_30: "time_Parse_RFC3339 ''2016-01-05T10:20:30Z'' = Inr t_10_20_30"
  by (simp add: time_parse_defs t_10_20_30_def)

lemma time_Parse_10_20_31:
  "time_Parse_RFC3339 ''2016-01-05T10:20:31Z'' = Inr (t_10_20_30\<lparr>second := 31\<rparr>)"
  by (simp add: time_parse_defs t_10_20_30_def)

lemma time_Parse_empty: "time_Parse_RFC3339 [] = Inl (TimeParseError [])"
  by (simp add: time_parse_defs)

lemma time_Parse_yesterday: "time_Parse_RFC3339 ''yesterday'' = Inl (TimeParseError ''yesterday'')"
  by (simp add: time_parse_defs)

lemmas match_defs = match_field_def transient_fields_def fold_char_def

lemma decode_active_image:
  "decode_members active_image zero_transient =
     Inr \<lparr>tmp = zero_Image\<lparr>ID := ''abc'', Name := ''cirros''\<rparr>,
          p_SizeBytes = IFloat64 (F64 4503599627370496 (- 22)),
          p_CreatedAt = ''2016-01-05T10:20:30Z'',
          p_UpdatedAt = ''2016-01-05T10:20:31Z''\<rparr>"
  by (simp add: active_image_def match_defs ParseFloat_2_30 in_tmp_def zero_transient_def)

lemma member_size_active_image:
  "member P_SizeBytes active_image = Some (JNumber (IntLit 1073741824))"
  by (simp add: active_image_def member_Cons member_Nil match_defs)

lemma unmarshalCustomProperties_active_image:
  "snd (unmarshalCustomProperties s (JObject active_image) st) = None"
  by (simp add: unmarshalCustomProperties_def active_image_def ParseFloat_2_30 Let_def)

lemma UnmarshalJSON_active_image:
  "\<exists>s'. UnmarshalJSON s (JObject active_image) = Inr (s', None)"
proof -
  have f: "p_SizeBytes \<lparr>tmp = zero_Image\<lparr>ID := ''abc'', Name := ''cirros''\<rparr>,
          p_SizeBytes = IFloat64 (F64 4503599627370496 (- 22)),
          p_CreatedAt = ''2016-01-05T10:20:30Z'',
          p_UpdatedAt = ''2016-01-05T10:20:31Z''\<rparr> = IFloat64 (F64 4503599627370496 (- 22))"
    by simp
  show ?thesis
    unfolding UnmarshalJSON_float_created [OF decode_active_image f, simplified, OF time_Parse_10_20_30]
    by (metis prod.collapse unmarshalCustomProperties_active_image)
qed

lemma KnownFieldSet_eq:
  "KnownFieldSet =
     {''id'', ''name'', ''status'', ''tags'', ''container_format'', ''disk_format'', ''min_disk'',
      ''min_ram'', ''owner'', ''protected'', ''visibility'', ''checksum'', ''size'', ''metadata'',
      ''properties'', ''file'', ''schema'', ''virtual_size'', ''self'', ''direct_url'', ''locations'',
      ''tmp'', ''created_at'', ''updated_at''}"
  unfolding KnownFieldSet_def jsonTagKeys_Image jsonTagKeys_transient by auto

lemma top_level_active_image:
  "top_level active_image ''hw_disk_bus'' = Some (JString ''scsi'')"
  "top_level active_image ''os_hidden'' = Some (JBool False)"
  "top_level active_image ''tmp'' = Some (JString ''x'')"
  by (simp_all add: top_level_def active_image_def)

lemma decode_queued_image:
  "decode_members queued_image zero_transient =
     Inr \<lparr>tmp = zero_Image\<lparr>ID := ''abc'', Status := ''queued''\<rparr>,
          p_SizeBytes = INil,
          p_CreatedAt = ''2016-01-05T10:20:30Z'',
          p_UpdatedAt = []\<rparr>"
  by (simp add: queued_image_def match_defs in_tmp_def zero_transient_def)

lemma decode_nested_properties_image:
  "decode_members nested_properties_image zero_transient =
     Inr \<lparr>tmp = zero_Image\<lparr>Properties := Some [''tmp'' \<mapsto> ''y'']\<rparr>,
          p_SizeBytes = INil, p_CreatedAt = [], p_UpdatedAt = []\<rparr>"
  by (simp add: nested_properties_image_def match_defs in_tmp_def zero_transient_def zero_Image_def)

section \<open>The claims\<close>

text \<open>
  C2 (amended).  For every object payload that \<open>UnmarshalJSON\<close> decodes without error and
  whose size member is present and not null, \<open>Properties\<close> holds exactly the top-level keys
  outside the known field set whose value is a JSON string, each with that string: no
  known key is in it, and a value that is not a string is left out.
\<close>

theorem custom_properties_exact:
  assumes "UnmarshalJSON s (JObject kvs) = Inr (s', None)"
    and "member P_SizeBytes kvs = Some v" and "v \<noteq> JNull"
  shows "\<exists>ps. Properties s' = Some ps \<and>
           (\<forall>k x. ps k = Some x \<longleftrightarrow> k \<notin> KnownFieldSet \<and> top_level kvs k = Some (JString x))"
proof -
  from assms obtain s4 where "unmarshalCustomProperties s4 (JObject kvs) transient_type = (s', None)"
    by (rule UnmarshalJSON_success_float)
  from unmarshalCustomProperties_object [OF this] show ?thesis
    unfolding KnownFieldSet_def top_level_def by auto
qed

theorem custom_properties_exact_witness:
  "\<exists>s' ps. UnmarshalJSON zero_Image (JObject active_image) = Inr (s', None) \<and>
     member P_SizeBytes active_image = Some (JNumber (IntLit 1073741824)) \<and>
     JNumber (IntLit 1073741824) \<noteq> JNull \<and>
     Properties s' = Some ps \<and>
     ps ''hw_disk_bus'' = Some ''scsi'' \<and> ps ''os_hidden'' = None \<and> ps ''name'' = None"
proof -
  from UnmarshalJSON_active_image obtain s'
    where ok: "UnmarshalJSON zero_Image (JObject active_image) = Inr (s', None)" by blast
  from custom_properties_exact [OF ok member_size_active_image] obtain ps
    where ps: "Properties s' = Some ps"
      and iff: "\<And>k x. ps k = Some x \<longleftrightarrow>
                 k \<notin> KnownFieldSet \<and> top_level active_image k = Some (JString x)"
    by auto
  have 1: "ps ''hw_disk_bus'' = Some ''scsi''"
    unfolding iff by (simp add: KnownFieldSet_eq top_level_active_image)
  have 2: "ps ''os_hidden'' = None"
  proof (cases "ps ''os_hidden''")
    case (Some x)
    then show ?thesis unfolding iff by (simp add: top_level_active_image)
  qed simp
  have 3: "ps ''name'' = None"
  proof (cases "ps ''name''")
    case (Some x)
    then show ?thesis unfolding iff by (simp add: KnownFieldSet_eq)
  qed simp
  from ok ps 1 2 3 member_size_active_image show ?thesis by blast
qed

text \<open>
  The claim as stated fails for a payload without size: the queued image decodes without
  error, its key \<^verbatim>\<open>hw_disk_bus\<close> is a string outside the known field set, and
  \<open>Properties\<close> is \<^verbatim>\<open>nil\<close>.
\<close>

theorem custom_properties_counterexample:
  "UnmarshalJSON zero_Image (JObject queued_image) =
     Inr (zero_Image\<lparr>ID := ''abc'', Status := ''queued''\<rparr>, None) \<and>
   ''hw_disk_bus'' \<notin> KnownFieldSet \<and>
   top_level queued_image ''hw_disk_bus'' = Some (JString ''scsi'') \<and>
   Properties (zero_Image\<lparr>ID := ''abc'', Status := ''queued''\<rparr>) = None"
  using UnmarshalJSON_nil [OF decode_queued_image, of zero_Image]
  by (simp add: KnownFieldSet_eq top_level_def queued_image_def zero_Image_def)

lemma store_properties_null:
  "store T_Properties v p = Inr p' \<Longrightarrow> v = JNull \<Longrightarrow> Properties (tmp p') = None"
  by (auto simp: map_sum_id_Inr in_tmp_def)

lemma decode_members_properties_null:
  assumes "decode_members kvs p = Inr p'" and "member T_Properties kvs = Some JNull"
  shows "Properties (tmp p') = None"
proof -
  have "JNull = JNull \<longrightarrow> Properties (tmp p') = None"
  proof (rule decode_members_present
      [of T_Properties "\<lambda>p. Properties (tmp p)" "\<lambda>v x. v = JNull \<longrightarrow> x = None", OF _ _ assms])
    show "\<And>t v p p'. store t v p = Inr p' \<Longrightarrow> t \<noteq> T_Properties \<Longrightarrow>
            Properties (tmp p') = Properties (tmp p)"
      by (rule store_properties_other)
    show "\<And>v p p'. store T_Properties v p = Inr p' \<Longrightarrow> v = JNull \<longrightarrow> Properties (tmp p') = None"
      using store_properties_null by blast
  qed
  then show ?thesis by simp
qed

lemma zero_transient_simps:
  "p_SizeBytes zero_transient = INil" "p_CreatedAt zero_transient = []"
  "p_UpdatedAt zero_transient = []" "tmp zero_transient = zero_Image"
  by (simp_all add: zero_transient_def)

lemma zero_Image_simps:
  "CreatedAt zero_Image = zero_time" "UpdatedAt zero_Image = zero_time"
  "Properties zero_Image = None" "SizeBytes zero_Image = 0"
  by (simp_all add: zero_Image_def)

lemma size_nil:
  assumes p: "decode_members kvs zero_transient = Inr p"
    and size: "member P_SizeBytes kvs = None \<or> member P_SizeBytes kvs = Some JNull"
  shows "p_SizeBytes p = INil"
  using size
proof
  assume "member P_SizeBytes kvs = None"
  from decode_members_size_absent [OF p this] show ?thesis by (simp add: zero_transient_simps)
next
  assume "member P_SizeBytes kvs = Some JNull"
  from decode_members_size_present [OF p this] show ?thesis by simp
qed

text \<open>
  C3 (amended).  If the size member is absent from, or null in, an image payload that
  \<^verbatim>\<open>json.Unmarshal\<close> accepts, \<open>UnmarshalJSON\<close> returns success right after copying the
  modelled attributes: \<open>CreatedAt\<close> and \<open>UpdatedAt\<close> are the zero time whatever the
  payload has for them, and \<open>Properties\<close> is \<^verbatim>\<open>nil\<close> when the payload has no
  \<^verbatim>\<open>properties\<close> member or a null one.
\<close>

theorem size_absent_returns_early:
  assumes "Unmarshal_transient (JObject kvs) = Inr (Some p)"
    and "member P_SizeBytes kvs = None \<or> member P_SizeBytes kvs = Some JNull"
  shows "UnmarshalJSON s (JObject kvs) = Inr (tmp p, None) \<and>
         CreatedAt (tmp p) = zero_time \<and> UpdatedAt (tmp p) = zero_time \<and>
         (member T_Properties kvs = None \<or> member T_Properties kvs = Some JNull
            \<longrightarrow> Properties (tmp p) = None)"
proof -
  from assms(1) have p: "decode_members kvs zero_transient = Inr p"
    by (auto simp: map_sum_id_Inr)
  from size_nil [OF p assms(2)] have "UnmarshalJSON s (JObject kvs) = Inr (tmp p, None)"
    by (rule UnmarshalJSON_nil [OF p])
  moreover from decode_members_times [OF p]
  have "CreatedAt (tmp p) = zero_time \<and> UpdatedAt (tmp p) = zero_time"
    by (simp add: zero_transient_simps zero_Image_simps)
  moreover have "Properties (tmp p) = None" if "member T_Properties kvs = None"
    using decode_members_properties_absent [OF p that]
    by (simp add: zero_transient_simps zero_Image_simps)
  moreover have "Properties (tmp p) = None" if "member T_Properties kvs = Some JNull"
    using decode_members_properties_null [OF p that] .
  ultimately show ?thesis by blast
qed

lemma members_queued_image:
  "member P_SizeBytes queued_image = Some JNull"
  "member P_CreatedAt queued_image = Some (JString ''2016-01-05T10:20:30Z'')"
  "member T_Properties queued_image = None"
  by (simp_all add: queued_image_def member_Cons member_Nil match_defs)

theorem size_absent_returns_early_witness:
  "Unmarshal_transient (JObject queued_image) =
     Inr (Some \<lparr>tmp = zero_Image\<lparr>ID := ''abc'', Status := ''queued''\<rparr>, p_SizeBytes = INil,
                p_CreatedAt = ''2016-01-05T10:20:30Z'', p_UpdatedAt = []\<rparr>) \<and>
   member P_SizeBytes queued_image = Some JNull \<and>
   member P_CreatedAt queued_image = Some (JString ''2016-01-05T10:20:30Z'') \<and>
   member T_Properties queued_image = None \<and>
   UnmarshalJSON zero_Image (JObject queued_image) =
     Inr (zero_Image\<lparr>ID := ''abc'', Status := ''queued''\<rparr>, None) \<and>
   CreatedAt (zero_Image\<lparr>ID := ''abc'', Status := ''queued''\<rparr>) = zero_time \<and>
   Properties (zero_Image\<lparr>ID := ''abc'', Status := ''queued''\<rparr>) = None"
proof -
  have u: "Unmarshal_transient (JObject queued_image) =
     Inr (Some \<lparr>tmp = zero_Image\<lparr>ID := ''abc'', Status := ''queued''\<rparr>, p_SizeBytes = INil,
                p_CreatedAt = ''2016-01-05T10:20:30Z'', p_UpdatedAt = []\<rparr>)"
    by (simp add: decode_queued_image)
  from size_absent_returns_early [OF u, of zero_Image] members_queued_image u
  show ?thesis by simp
qed

text \<open>
  The claim as stated fails for a payload with a \<^verbatim>\<open>properties\<close> object: size is absent,
  the call succeeds, and \<open>Properties\<close> is not \<^verbatim>\<open>nil\<close>.
\<close>

theorem size_absent_properties_counterexample:
  "member P_SizeBytes nested_properties_image = None \<and>
   (\<exists>s'. UnmarshalJSON zero_Image (JObject nested_properties_image) = Inr (s', None) \<and>
      Properties s' \<noteq> None)"
  using UnmarshalJSON_nil [OF decode_nested_properties_image, of zero_Image]
  by (simp add: nested_properties_image_def member_Cons member_Nil match_defs)

lemma size_float:
  assumes p: "decode_members kvs zero_transient = Inr p"
    and size: "member P_SizeBytes kvs = Some (JNumber n)"
  obtains f where "ParseFloat n = Some f" and "p_SizeBytes p = IFloat64 f"
  using decode_members_size_present [OF p size]
  by (auto split: option.splits)

lemma created_text:
  assumes p: "decode_members kvs zero_transient = Inr p"
    and c: "member P_CreatedAt kvs = Some (JString c) \<or> member P_CreatedAt kvs = None \<and> c = []"
  shows "p_CreatedAt p = c"
  using c
proof
  assume "member P_CreatedAt kvs = Some (JString c)"
  then show ?thesis by (rule decode_members_created_present [OF p])
next
  assume "member P_CreatedAt kvs = None \<and> c = []"
  with decode_members_created_absent [OF p] show ?thesis
    by (simp add: zero_transient_simps)
qed

text \<open>
  C1 (amended).  For every image payload that \<^verbatim>\<open>json.Unmarshal\<close> accepts and whose size
  member is a JSON number: when \<^verbatim>\<open>created_at\<close> is a string that \<^verbatim>\<open>time.Parse\<close> rejects
  for the layout RFC3339, or is absent (the empty string is parsed then), decoding fails
  with the time parse error of that text and \<open>CreatedAt\<close> is the zero time.
\<close>

theorem malformed_created_at_fails:
  assumes "Unmarshal_transient (JObject kvs) = Inr (Some p)"
    and "member P_SizeBytes kvs = Some (JNumber n)"
    and "member P_CreatedAt kvs = Some (JString c) \<or> member P_CreatedAt kvs = None \<and> c = []"
    and "time_Parse_RFC3339 c = Inl e"
  shows "\<exists>s'. UnmarshalJSON s (JObject kvs) = Inr (s', Some (TimeParseError c)) \<and>
           CreatedAt s' = zero_time"
proof -
  from assms(1) have p: "decode_members kvs zero_transient = Inr p"
    by (auto simp: map_sum_id_Inr)
  from p assms(2) obtain f where f: "p_SizeBytes p = IFloat64 f"
    by (rule size_float)
  from created_text [OF p assms(3)] assms(4)
  have bad: "time_Parse_RFC3339 (p_CreatedAt p) = Inl e" by simp
  from time_Parse_RFC3339_error [OF assms(4)] UnmarshalJSON_float_bad_created [OF p f bad, of s]
  show ?thesis by simp
qed

lemma decode_bad_created_image:
  "decode_members bad_created_image zero_transient =
     Inr \<lparr>tmp = zero_Image, p_SizeBytes = IFloat64 (F64 4503599627370496 (- 22)),
          p_CreatedAt = ''yesterday'', p_UpdatedAt = []\<rparr>"
  by (simp add: bad_created_image_def match_defs ParseFloat_2_30 zero_transient_def)

lemma decode_size_only_image:
  "decode_members size_only_image zero_transient =
     Inr \<lparr>tmp = zero_Image, p_SizeBytes = IFloat64 (F64 4503599627370496 (- 22)),
          p_CreatedAt = [], p_UpdatedAt = []\<rparr>"
  by (simp add: size_only_image_def match_defs ParseFloat_2_30 zero_transient_def)

lemma decode_bad_updated_image:
  "decode_members bad_updated_image zero_transient =
     Inr \<lparr>tmp = zero_Image, p_SizeBytes = IFloat64 (F64 4503599627370496 (- 22)),
          p_CreatedAt = ''2016-01-05T10:20:30Z'', p_UpdatedAt = ''yesterday''\<rparr>"
  by (simp add: bad_updated_image_def match_defs ParseFloat_2_30 zero_transient_def)

lemma decode_bad_created_queued_image:
  "decode_members bad_created_queued_image zero_transient =
     Inr \<lparr>tmp = zero_Image, p_SizeBytes = INil, p_CreatedAt = ''yesterday'', p_UpdatedAt = []\<rparr>"
  by (simp add: bad_created_queued_image_def match_defs zero_transient_def)

lemma members_bad_created_image:
  "member P_SizeBytes bad_created_image = Some (JNumber (IntLit 1073741824))"
  "member P_CreatedAt bad_created_image = Some (JString ''yesterday'')"
  by (simp_all add: bad_created_image_def member_Cons member_Nil match_defs)

lemma members_size_only_image:
  "member P_SizeBytes size_only_image = Some (JNumber (IntLit 1073741824))"
  "member P_CreatedAt size_only_image = None"
  by (simp_all add: size_only_image_def member_Cons member_Nil match_defs)

theorem malformed_created_at_fails_witness:
  "Unmarshal_transient (JObject bad_created_image) =
     Inr (Some \<lparr>tmp = zero_Image, p_SizeBytes = IFloat64 (F64 4503599627370496 (- 22)),
                p_CreatedAt = ''yesterday'', p_UpdatedAt = []\<rparr>) \<and>
   member P_SizeBytes bad_created_image = Some (JNumber (IntLit 1073741824)) \<and>
   member P_CreatedAt bad_created_image = Some (JString ''yesterday'') \<and>
   time_Parse_RFC3339 ''yesterday'' = Inl (TimeParseError ''yesterday'') \<and>
   (\<exists>s'. UnmarshalJSON zero_Image (JObject bad_created_image) =
            Inr (s', Some (TimeParseError ''yesterday'')) \<and> CreatedAt s' = zero_time)"
proof -
  have u: "Unmarshal_transient (JObject bad_created_image) =
     Inr (Some \<lparr>tmp = zero_Image, p_SizeBytes = IFloat64 (F64 4503599627370496 (- 22)),
                p_CreatedAt = ''yesterday'', p_UpdatedAt = []\<rparr>)"
    by (simp add: decode_bad_created_image)
  have c: "member P_CreatedAt bad_created_image = Some (JString ''yesterday'') \<or>
           member P_CreatedAt bad_created_image = None \<and> ''yesterday'' = []"
    by (simp add: members_bad_created_image)
  from malformed_created_at_fails
         [OF u members_bad_created_image(1) c time_Parse_yesterday, of zero_Image]
    u members_bad_created_image time_Parse_yesterday
  show ?thesis by blast
qed

lemma time_Parse_short_hour:
  "time_Parse_RFC3339 ''2016-01-05T1:20:30Z'' = Inr (t_10_20_30\<lparr>hour := 1\<rparr>)"
  by (simp add: time_parse_defs t_10_20_30_def)

lemma decode_short_hour_image:
  "decode_members short_hour_image zero_transient =
     Inr \<lparr>tmp = zero_Image, p_SizeBytes = IFloat64 (F64 4503599627370496 (- 22)),
          p_CreatedAt = ''2016-01-05T1:20:30Z'', p_UpdatedAt = []\<rparr>"
  by (simp add: short_hour_image_def match_defs ParseFloat_2_30 zero_transient_def)

text \<open>
  The claim as stated fails four ways: with \<^verbatim>\<open>created_at\<close> absent the decode fails on
  the empty string; a malformed \<^verbatim>\<open>updated_at\<close> does not fail the decode; without a
  size a malformed \<^verbatim>\<open>created_at\<close> does not fail it either; and a \<^verbatim>\<open>created_at\<close> with
  a one-digit hour, which RFC 3339 does not allow, is parsed.
\<close>

theorem timestamp_claim_counterexample:
  "member P_CreatedAt size_only_image = None \<and>
   UnmarshalJSON zero_Image (JObject size_only_image) =
     Inr (zero_Image\<lparr>SizeBytes := 1073741824\<rparr>, Some (TimeParseError [])) \<and>
   top_level bad_updated_image ''updated_at'' = Some (JString ''yesterday'') \<and>
   time_Parse_RFC3339 ''yesterday'' = Inl (TimeParseError ''yesterday'') \<and>
   (\<exists>s'. UnmarshalJSON zero_Image (JObject bad_updated_image) = Inr (s', None)) \<and>
   top_level bad_created_queued_image ''created_at'' = Some (JString ''yesterday'') \<and>
   UnmarshalJSON zero_Image (JObject bad_created_queued_image) = Inr (zero_Image, None) \<and>
   top_level short_hour_image ''created_at'' = Some (JString ''2016-01-05T1:20:30Z'') \<and>
   (\<exists>s'. UnmarshalJSON zero_Image (JObject short_hour_image) = Inr (s', None) \<and>
      CreatedAt s' = t_10_20_30\<lparr>hour := 1\<rparr>)"
proof -
  have 1: "UnmarshalJSON zero_Image (JObject size_only_image) =
     Inr (zero_Image\<lparr>SizeBytes := 1073741824\<rparr>, Some (TimeParseError []))"
    using UnmarshalJSON_float_bad_created [OF decode_size_only_image, simplified, OF refl time_Parse_empty]
    by (simp add: int64_2_30 zero_Image_def)
  have "snd (unmarshalCustomProperties s (JObject bad_updated_image) st) = None" for s st
    by (simp add: unmarshalCustomProperties_def bad_updated_image_def ParseFloat_2_30 Let_def)
  then have 2: "\<exists>s'. UnmarshalJSON zero_Image (JObject bad_updated_image) = Inr (s', None)"
    unfolding UnmarshalJSON_float_created
      [OF decode_bad_updated_image, simplified, OF refl time_Parse_10_20_30]
    by (metis prod.collapse)
  have 3: "UnmarshalJSON zero_Image (JObject bad_created_queued_image) = Inr (zero_Image, None)"
    using UnmarshalJSON_nil [OF decode_bad_created_queued_image, of zero_Image] by simp
  have 4: "\<exists>s'. UnmarshalJSON zero_Image (JObject short_hour_image) = Inr (s', None) \<and>
      CreatedAt s' = t_10_20_30\<lparr>hour := 1\<rparr>"
  proof -
    let ?s4 = "zero_Image\<lparr>SizeBytes := int64_of_float64 (F64 4503599627370496 (- 22)),
                 CreatedAt := t_10_20_30\<lparr>hour := 1\<rparr>,
                 UpdatedAt := fst (time_Parse [])\<rparr>"
    have e: "snd (unmarshalCustomProperties ?s4 (JObject short_hour_image) transient_type) = None"
      by (simp add: unmarshalCustomProperties_def short_hour_image_def ParseFloat_2_30 Let_def)
    obtain s' where r: "unmarshalCustomProperties ?s4 (JObject short_hour_image) transient_type
        = (s', None)"
      using e by (metis prod.collapse)
    from unmarshalCustomProperties_frame [OF r] have "CreatedAt s' = t_10_20_30\<lparr>hour := 1\<rparr>"
      by auto
    with r show ?thesis
      unfolding UnmarshalJSON_float_created
        [OF decode_short_hour_image, simplified, OF refl time_Parse_short_hour]
      by simp
  qed
  from 1 2 3 4 members_size_only_image(2) time_Parse_yesterday show ?thesis
    by (simp add: top_level_def bad_updated_image_def bad_created_queued_image_def
        short_hour_image_def)
qed

subsection \<open>A key that no field matches and that is deleted\<close>

lemma match_field_tmp: "match_field transient_fields ''tmp'' = None"
  by (simp add: match_defs)

lemma decode_members_drop_key:
  "match_field transient_fields key = None \<Longrightarrow>
     decode_members (drop_key key kvs) p = decode_members kvs p"
proof (induction kvs arbitrary: p)
  case Nil
  then show ?case by (simp add: drop_key_def)
next
  case (Cons kv kvs)
  obtain k v where kv: "kv = (k, v)" by (cases kv)
  from Cons have IH: "\<And>p. decode_members (filter (\<lambda>(k, v). k \<noteq> key) kvs) p = decode_members kvs p"
    by (simp add: drop_key_def)
  from Cons.prems show ?case
    unfolding kv drop_key_def
    by (cases "k = key") (simp_all add: IH split: option.splits sum.splits)
qed

lemma decode_entries_drop_key:
  assumes "\<forall>v \<in> set (key_members key kvs). \<exists>x. v = JString x"
    and "\<forall>k. k \<noteq> key \<longrightarrow> m k = m' k"
  shows "rel_sum (=) (\<lambda>a b. \<forall>k. k \<noteq> key \<longrightarrow> a k = b k)
           (decode_entries kvs m) (decode_entries (drop_key key kvs) m')"
  using assms
proof (induction kvs arbitrary: m m')
  case Nil
  then show ?case by (simp add: drop_key_def)
next
  case (Cons kv kvs)
  obtain k v where kv: "kv = (k, v)" by (cases kv)
  from Cons.prems(1) kv have rest: "\<forall>v \<in> set (key_members key kvs). \<exists>x. v = JString x"
    by (auto simp: key_members_def)
  show ?case
  proof (cases "k = key")
    case True
    with Cons.prems(1) kv obtain x where x: "v = JString x"
      by (auto simp: key_members_def)
    from Cons.prems(2) have "\<forall>k'. k' \<noteq> key \<longrightarrow> (m(key \<mapsto> IString x)) k' = m' k'"
      by simp
    note IH = Cons.IH [OF rest this]
    have 1: "decode_entries (kv # kvs) m = decode_entries kvs (m(key \<mapsto> IString x))"
      by (simp add: kv True x)
    have 2: "decode_entries (drop_key key (kv # kvs)) m' = decode_entries (drop_key key kvs) m'"
      by (simp add: drop_key_def kv True)
    from IH show ?thesis unfolding 1 2 .
  next
    case False
    show ?thesis
    proof (cases "to_iface v")
      case (Inl e)
      with False kv show ?thesis by (simp add: drop_key_def)
    next
      case (Inr y)
      from Cons.prems(2) have "\<forall>k'. k' \<noteq> key \<longrightarrow> (m(k \<mapsto> y)) k' = (m'(k \<mapsto> y)) k'"
        by simp
      note IH = Cons.IH [OF rest this]
      have 1: "decode_entries (kv # kvs) m = decode_entries kvs (m(k \<mapsto> y))"
        by (simp add: kv Inr)
      have 2: "decode_entries (drop_key key (kv # kvs)) m' =
               decode_entries (drop_key key kvs) (m'(k \<mapsto> y))"
        by (simp add: drop_key_def kv False Inr)
      from IH show ?thesis unfolding 1 2 .
    qed
  qed
qed

lemma delete_keys_cong:
  assumes "key \<in> set fs" and "\<forall>k. k \<noteq> key \<longrightarrow> a k = b k"
  shows "delete_keys fs a = delete_keys fs b"
proof
  fix k
  from assms show "delete_keys fs a k = delete_keys fs b k"
    by (cases "k = key") (simp_all add: delete_keys_apply)
qed

lemma unmarshalCustomProperties_drop_key:
  assumes str: "\<forall>v \<in> set (key_members key kvs). \<exists>x. v = JString x"
    and known: "key \<in> set (jsonTagKeys Image_type @ jsonTagKeys st)"
  shows "unmarshalCustomProperties s (JObject (drop_key key kvs)) st =
         unmarshalCustomProperties s (JObject kvs) st"
proof -
  have r: "rel_sum (=) (\<lambda>a b. \<forall>k. k \<noteq> key \<longrightarrow> a k = b k)
           (decode_entries kvs Map.empty) (decode_entries (drop_key key kvs) Map.empty)"
    by (rule decode_entries_drop_key [OF str]) simp
  show ?thesis
  proof (cases "decode_entries kvs Map.empty")
    case (Inl e)
    with r have "decode_entries (drop_key key kvs) Map.empty = Inl e"
      by (cases "decode_entries (drop_key key kvs) Map.empty") simp_all
    with Inl show ?thesis by (simp add: unmarshalCustomProperties_def)
  next
    case (Inr a)
    with r obtain b where b: "decode_entries (drop_key key kvs) Map.empty = Inr b"
      and ab: "\<forall>k. k \<noteq> key \<longrightarrow> a k = b k"
      by (cases "decode_entries (drop_key key kvs) Map.empty") simp_all
    from delete_keys_cong [OF known ab] Inr b show ?thesis
      by (simp add: unmarshalCustomProperties_def Let_def)
  qed
qed

lemma UnmarshalJSON_drop_key:
  assumes str: "\<forall>v \<in> set (key_members key kvs). \<exists>x. v = JString x"
    and known: "key \<in> set (jsonTagKeys Image_type @ jsonTagKeys transient_type)"
    and unmatched: "match_field transient_fields key = None"
  shows "UnmarshalJSON s (JObject (drop_key key kvs)) = UnmarshalJSON s (JObject kvs)"
  by (simp add: UnmarshalJSON_def decode_members_drop_key [OF unmatched]
      unmarshalCustomProperties_drop_key [OF str known] Let_def
      split: sum.splits option.splits iface.splits prod.splits)

text \<open>
  C10.  For every image payload whose top-level members named \<^verbatim>\<open>tmp\<close> are JSON
  strings, those members never reach \<open>Properties\<close>: \<open>UnmarshalJSON\<close> gives what it
  gives for the payload without them, and a decode without error leaves no key
  \<^verbatim>\<open>tmp\<close> in \<open>Properties\<close> whenever the custom properties are extracted (size present
  and not null) or the payload has no \<^verbatim>\<open>properties\<close> object.  \<open>jsonTagKeys\<close> gives
  \<^verbatim>\<open>tmp\<close> for the untagged embedded field of the transient struct, though it is no tag
  key of \<open>Image\<close>, and the key is deleted with the wire names.
\<close>

theorem tmp_key_never_a_property:
  assumes "key_members ''tmp'' kvs = map JString xs"
  shows "UnmarshalJSON s (JObject kvs) = UnmarshalJSON s (JObject (drop_key ''tmp'' kvs)) \<and>
         (\<forall>s'. UnmarshalJSON s (JObject kvs) = Inr (s', None) \<and>
               (member T_Properties kvs = None \<or> member T_Properties kvs = Some JNull \<or>
                (\<exists>v. member P_SizeBytes kvs = Some v \<and> v \<noteq> JNull))
               \<longrightarrow> \<not> in_Properties s' ''tmp'') \<and>
         ''tmp'' \<in> set (jsonTagKeys transient_type) \<and>
         ''tmp'' \<notin> set (jsonTagKeys Image_type)"
proof -
  from assms have str: "\<forall>v \<in> set (key_members ''tmp'' kvs). \<exists>x. v = JString x"
    by auto
  have known: "''tmp'' \<in> set (jsonTagKeys Image_type @ jsonTagKeys transient_type)"
    by (simp add: jsonTagKeys_transient)
  have same: "UnmarshalJSON s (JObject kvs) = UnmarshalJSON s (JObject (drop_key ''tmp'' kvs))"
    by (rule UnmarshalJSON_drop_key [OF str known match_field_tmp, symmetric])
  have absent: "\<not> in_Properties s' ''tmp''"
    if ok: "UnmarshalJSON s (JObject kvs) = Inr (s', None)"
      and c: "member T_Properties kvs = None \<or> member T_Properties kvs = Some JNull \<or>
              (\<exists>v. member P_SizeBytes kvs = Some v \<and> v \<noteq> JNull)" for s'
  proof (cases "\<exists>v. member P_SizeBytes kvs = Some v \<and> v \<noteq> JNull")
    case True
    then obtain v where v: "member P_SizeBytes kvs = Some v" "v \<noteq> JNull" by blast
    from ok v obtain s4
      where "unmarshalCustomProperties s4 (JObject kvs) transient_type = (s', None)"
      by (rule UnmarshalJSON_success_float)
    from unmarshalCustomProperties_object [OF this] obtain ps
      where ps: "Properties s' = Some ps"
        and iff: "\<And>k x. ps k = Some x \<longleftrightarrow>
                   k \<notin> set (jsonTagKeys Image_type @ jsonTagKeys transient_type) \<and>
                   map_of (rev kvs) k = Some (JString x)"
      by auto
    have "ps ''tmp'' = None"
    proof (cases "ps ''tmp''")
      case (Some x)
      then show ?thesis unfolding iff using known by simp
    qed simp
    with ps show ?thesis by (simp add: in_Properties_def)
  next
    case False
    then have size: "member P_SizeBytes kvs = None \<or> member P_SizeBytes kvs = Some JNull"
      by (cases "member P_SizeBytes kvs") auto
    from False c have props: "member T_Properties kvs = None \<or> member T_Properties kvs = Some JNull"
      by blast
    from ok obtain p where p: "decode_members kvs zero_transient = Inr p"
      by (cases "decode_members kvs zero_transient") (auto simp: UnmarshalJSON_error)
    from UnmarshalJSON_nil [OF p size_nil [OF p size], of s] ok have s': "s' = tmp p" by simp
    from props have "Properties (tmp p) = None"
    proof
      assume "member T_Properties kvs = None"
      from decode_members_properties_absent [OF p this] show ?thesis
        by (simp add: zero_transient_simps zero_Image_simps)
    next
      assume "member T_Properties kvs = Some JNull"
      then show ?thesis by (rule decode_members_properties_null [OF p])
    qed
    with s' show ?thesis by (simp add: in_Properties_def)
  qed
  from same absent show ?thesis
    by (simp add: jsonTagKeys_transient jsonTagKeys_Image)
qed

theorem tmp_key_never_a_property_witness:
  "key_members ''tmp'' active_image = map JString [''x''] \<and>
   UnmarshalJSON zero_Image (JObject active_image) =
     UnmarshalJSON zero_Image (JObject (drop_key ''tmp'' active_image)) \<and>
   (\<exists>s'. UnmarshalJSON zero_Image (JObject active_image) = Inr (s', None) \<and>
      \<not> in_Properties s' ''tmp'')"
proof -
  have km: "key_members ''tmp'' active_image = map JString [''x'']"
    by (simp add: key_members_def active_image_def)
  from UnmarshalJSON_active_image obtain s'
    where ok: "UnmarshalJSON zero_Image (JObject active_image) = Inr (s', None)" by blast
  note th = tmp_key_never_a_property [OF km, of zero_Image]
  from th have a: "UnmarshalJSON zero_Image (JObject active_image) =
      UnmarshalJSON zero_Image (JObject (drop_key ''tmp'' active_image))"
    by blast
  from th ok member_size_active_image have b: "\<not> in_Properties s' ''tmp''"
    by blast
  from km a ok b show ?thesis by blast
qed

subsection \<open>The size switch\<close>

lemma sint_int64:
  "in_int64 i \<Longrightarrow> sint (word_of_int i :: 64 word) = i"
  by (simp add: in_int64_def signed_of_int signed_take_bit_int_eq_self)

lemma sint_int64_of_float64:
  "in_int64 (trunc_float64 f) \<Longrightarrow> sint (int64_of_float64 f) = trunc_float64 f"
  by (simp add: int64_of_float64_def sint_int64)

lemma to_iface_error:
  "to_iface v = Inl e \<Longrightarrow> \<exists>x ty. e = UnmarshalTypeError x ty"
  "to_ifaces vs = Inl e \<Longrightarrow> \<exists>x ty. e = UnmarshalTypeError x ty"
  "to_members kvs = Inl e \<Longrightarrow> \<exists>x ty. e = UnmarshalTypeError x ty"
  by (induction v and vs and kvs rule: to_iface_to_ifaces_to_members.induct)
     (auto split: option.splits sum.splits)

lemma decode_entries_error:
  "decode_entries kvs m = Inl e \<Longrightarrow> \<exists>x ty. e = UnmarshalTypeError x ty"
  by (induction kvs arbitrary: m) (auto split: sum.splits dest: to_iface_error(1))

lemma Unmarshal_map_error:
  "Unmarshal_map b old = Inl e \<Longrightarrow> \<exists>x ty. e = UnmarshalTypeError x ty"
  by (cases b) (auto simp: map_sum_id_Inl dest: decode_entries_error)

lemma unmarshalCustomProperties_size:
  assumes "unmarshalCustomProperties s b st = (s', err)"
  shows "SizeBytes s' = SizeBytes s \<and> (\<forall>ty x. err \<noteq> Some (UnknownSizeType ty x))"
proof (cases "Unmarshal_map b (Some Map.empty)")
  case (Inl e)
  with assms Unmarshal_map_error [OF Inl] show ?thesis
    by (auto simp: unmarshalCustomProperties_def)
next
  case (Inr m)
  with assms show ?thesis
    by (auto simp: unmarshalCustomProperties_def Let_def)
qed

lemma UnmarshalJSON_float_size:
  assumes p: "decode_members kvs zero_transient = Inr p" and f: "p_SizeBytes p = IFloat64 f"
  shows "\<exists>s' err. UnmarshalJSON s (JObject kvs) = Inr (s', err) \<and>
           SizeBytes s' = int64_of_float64 f \<and> (\<forall>ty x. err \<noteq> Some (UnknownSizeType ty x))"
proof (cases "time_Parse_RFC3339 (p_CreatedAt p)")
  case (Inl e)
  from UnmarshalJSON_float_bad_created [OF p f Inl, of s] time_Parse_RFC3339_error [OF Inl]
  show ?thesis by simp
next
  case (Inr c)
  let ?s4 = "(tmp p)\<lparr>SizeBytes := int64_of_float64 f, CreatedAt := c,
                 UpdatedAt := fst (time_Parse (p_UpdatedAt p))\<rparr>"
  obtain s' err where r: "unmarshalCustomProperties ?s4 (JObject kvs) transient_type = (s', err)"
    by (cases "unmarshalCustomProperties ?s4 (JObject kvs) transient_type")
  from unmarshalCustomProperties_size [OF r] UnmarshalJSON_float_created [OF p f Inr, of s] r
  show ?thesis by simp
qed

lemma bitlen_lower: "2 ^ k \<le> n \<Longrightarrow> k < bitlen n"
proof (induction k arbitrary: n)
  case 0
  then show ?case by (subst bitlen.simps) simp
next
  case (Suc k)
  then have "2 ^ k \<le> n div 2" by simp
  moreover from Suc.prems have "n \<noteq> 0" by (cases "n = 0") simp_all
  ultimately show ?case using Suc.IH [of "n div 2"] by (subst bitlen.simps) simp
qed

lemma binade_large:
  assumes "2 ^ 1024 \<le> q"
  shows "972 \<le> binade q"
proof -
  from assms have q1: "1 \<le> q"
    by (rule order_trans [rotated]) simp
  from assms have "(2::int) ^ 1024 \<le> \<lfloor>q\<rfloor>"
    by (simp add: le_floor_iff)
  then have "(2::nat) ^ 1024 \<le> nat \<lfloor>q\<rfloor>"
    by (simp add: le_nat_iff)
  from bitlen_lower [OF this] have "972 \<le> int (bitlen (nat \<lfloor>q\<rfloor>)) - 53" by simp
  with q1 show ?thesis by (simp add: binade_def Let_def)
qed

lemma round_float64_overflow:
  assumes "2 ^ 1024 \<le> \<bar>q\<bar>"
  shows "round_float64 q = None"
proof -
  from assms have q0: "q \<noteq> 0" by auto
  from binade_large [OF assms] have k: "971 < binade \<bar>q\<bar>" by simp
  show ?thesis
  proof (cases "q < 0")
    case True
    with k have "971 < binade (- q)" by simp
    with True q0 show ?thesis
      by (simp add: round_float64_def Let_def max_def)
  next
    case False
    with k have "971 < binade q" by simp
    with False q0 show ?thesis
      by (simp add: round_float64_def Let_def max_def)
  qed
qed

lemma ParseFloat_1e400: "ParseFloat (FloatLit 1 400) = None"
proof -
  have "(2::rat) ^ 1024 \<le> 10 ^ 400" by simp
  then show ?thesis
    by (simp add: ParseFloat_def value_of_def round_float64_overflow)
qed

lemma size_of_number:
  assumes "Unmarshal_transient (JObject kvs) = Inr (Some p)"
    and "member P_SizeBytes kvs = Some (JNumber n)"
  shows "\<exists>f s' err. round_float64 (value_of n) = Some f \<and>
           UnmarshalJSON s (JObject kvs) = Inr (s', err) \<and>
           SizeBytes s' = int64_of_float64 f \<and>
           (\<forall>ty x. err \<noteq> Some (UnknownSizeType ty x))"
proof -
  from assms(1) have p: "decode_members kvs zero_transient = Inr p"
    by (auto simp: map_sum_id_Inr)
  from p assms(2) obtain f where pf: "ParseFloat n = Some f" and f: "p_SizeBytes p = IFloat64 f"
    by (rule size_float)
  from UnmarshalJSON_float_size [OF p f, of s] pf show ?thesis
    by (auto simp: ParseFloat_def)
qed

text \<open>
  C4 (amended).  For every image payload that \<^verbatim>\<open>json.Unmarshal\<close> accepts: a size given
  as a JSON number, written as an integer or with a fraction or an exponent, passes the
  type switch, and \<open>SizeBytes\<close> is the int64 conversion of the float64 nearest to the
  number, which is its truncation whenever that fits int64, so that numbers of equal
  value give the same \<open>SizeBytes\<close>; a size given as a string, a boolean, an array or an
  object makes the decode fail with the error that names the Go type observed; a size
  given as \<^verbatim>\<open>null\<close> lets the decode return without an error.
\<close>

theorem size_number_or_type_error:
  assumes "Unmarshal_transient (JObject kvs) = Inr (Some p)"
    and "member P_SizeBytes kvs = Some v"
  shows "(\<forall>n. v = JNumber n \<longrightarrow>
            (\<exists>f s' err. round_float64 (value_of n) = Some f \<and>
               UnmarshalJSON s (JObject kvs) = Inr (s', err) \<and>
               SizeBytes s' = int64_of_float64 f \<and>
               (in_int64 (trunc_float64 f) \<longrightarrow> sint (SizeBytes s') = trunc_float64 f) \<and>
               (\<forall>ty x. err \<noteq> Some (UnknownSizeType ty x)) \<and>
               (\<forall>kvs2 p2 n2 s2 s2' err2.
                  Unmarshal_transient (JObject kvs2) = Inr (Some p2) \<and>
                  member P_SizeBytes kvs2 = Some (JNumber n2) \<and>
                  value_of n2 = value_of n \<and>
                  UnmarshalJSON s2 (JObject kvs2) = Inr (s2', err2)
                  \<longrightarrow> SizeBytes s2' = SizeBytes s'))) \<and>
         (\<forall>x. v = JString x \<longrightarrow>
            UnmarshalJSON s (JObject kvs) =
              Inr (tmp p, Some (UnknownSizeType ''string'' (IString x)))) \<and>
         (\<forall>b. v = JBool b \<longrightarrow>
            UnmarshalJSON s (JObject kvs) =
              Inr (tmp p, Some (UnknownSizeType ''bool'' (IBool b)))) \<and>
         (\<forall>vs. v = JArray vs \<longrightarrow>
            (\<exists>xs. UnmarshalJSON s (JObject kvs) =
              Inr (tmp p, Some (UnknownSizeType ''[]interface {}'' (ISlice xs))))) \<and>
         (\<forall>ms. v = JObject ms \<longrightarrow>
            (\<exists>xs. UnmarshalJSON s (JObject kvs) =
              Inr (tmp p, Some (UnknownSizeType ''map[string]interface {}'' (IMap xs))))) \<and>
         (v = JNull \<longrightarrow> UnmarshalJSON s (JObject kvs) = Inr (tmp p, None))"
proof -
  from assms(1) have p: "decode_members kvs zero_transient = Inr p"
    by (auto simp: map_sum_id_Inr)
  from decode_members_size_present [OF p assms(2)]
  have iv: "to_iface v = Inr (p_SizeBytes p)" .
  have num: "\<exists>f s' err. round_float64 (value_of n) = Some f \<and>
               UnmarshalJSON s (JObject kvs) = Inr (s', err) \<and>
               SizeBytes s' = int64_of_float64 f \<and>
               (in_int64 (trunc_float64 f) \<longrightarrow> sint (SizeBytes s') = trunc_float64 f) \<and>
               (\<forall>ty x. err \<noteq> Some (UnknownSizeType ty x)) \<and>
               (\<forall>kvs2 p2 n2 s2 s2' err2.
                  Unmarshal_transient (JObject kvs2) = Inr (Some p2) \<and>
                  member P_SizeBytes kvs2 = Some (JNumber n2) \<and>
                  value_of n2 = value_of n \<and>
                  UnmarshalJSON s2 (JObject kvs2) = Inr (s2', err2)
                  \<longrightarrow> SizeBytes s2' = SizeBytes s')" if v: "v = JNumber n" for n
  proof -
    from size_of_number [OF assms(1) assms(2) [unfolded v], of s] obtain f s' err
      where f: "round_float64 (value_of n) = Some f"
        and r: "UnmarshalJSON s (JObject kvs) = Inr (s', err)"
        and sz: "SizeBytes s' = int64_of_float64 f"
        and ne: "\<forall>ty x. err \<noteq> Some (UnknownSizeType ty x)"
      by blast
    have "SizeBytes s2' = SizeBytes s'"
      if a: "Unmarshal_transient (JObject kvs2) = Inr (Some p2)"
        and b: "member P_SizeBytes kvs2 = Some (JNumber n2)"
        and c: "value_of n2 = value_of n"
        and d: "UnmarshalJSON s2 (JObject kvs2) = Inr (s2', err2)"
      for kvs2 p2 n2 s2 s2' err2
      using size_of_number [OF a b, of s2] c d f sz by auto
    with f r sz ne show ?thesis
      by (auto simp: sint_int64_of_float64)
  qed
  have str: "UnmarshalJSON s (JObject kvs) =
      Inr (tmp p, Some (UnknownSizeType ''string'' (IString x)))" if "v = JString x" for x
  proof -
    from iv that have "p_SizeBytes p = IString x" by simp
    from UnmarshalJSON_other [OF p this, of s] show ?thesis by simp
  qed
  have bool: "UnmarshalJSON s (JObject kvs) =
      Inr (tmp p, Some (UnknownSizeType ''bool'' (IBool b)))" if "v = JBool b" for b
  proof -
    from iv that have "p_SizeBytes p = IBool b" by simp
    from UnmarshalJSON_other [OF p this, of s] show ?thesis by simp
  qed
  have arr: "\<exists>xs. UnmarshalJSON s (JObject kvs) =
      Inr (tmp p, Some (UnknownSizeType ''[]interface {}'' (ISlice xs)))" if "v = JArray vs" for vs
  proof -
    from iv that obtain xs where "p_SizeBytes p = ISlice xs"
      by (cases "to_ifaces vs") (auto dest: sym)
    from UnmarshalJSON_other [OF p this, of s] show ?thesis by simp
  qed
  have obj: "\<exists>xs. UnmarshalJSON s (JObject kvs) =
      Inr (tmp p, Some (UnknownSizeType ''map[string]interface {}'' (IMap xs)))" if "v = JObject ms" for ms
  proof -
    from iv that obtain xs where "p_SizeBytes p = IMap xs"
      by (cases "to_members ms") (auto dest: sym)
    from UnmarshalJSON_other [OF p this, of s] show ?thesis by simp
  qed
  have null: "UnmarshalJSON s (JObject kvs) = Inr (tmp p, None)" if "v = JNull"
  proof -
    from iv that have "p_SizeBytes p = INil" by simp
    then show ?thesis by (rule UnmarshalJSON_nil [OF p])
  qed
  from num str bool arr obj null show ?thesis by blast
qed

lemma value_of_float_2_30: "value_of (FloatLit 10737418240 (- 1)) = 1073741824"
  by (simp add: value_of_def)

lemma value_of_int_2_30: "value_of (IntLit 1073741824) = 1073741824"
  by (simp add: value_of_def)

lemma ParseFloat_float_2_30:
  "ParseFloat (FloatLit 10737418240 (- 1)) = Some (F64 4503599627370496 (- 22))"
  by (simp add: ParseFloat_def value_of_float_2_30 round_float64_2_30)

lemma trunc_2_30: "trunc_float64 (F64 4503599627370496 (- 22)) = 1073741824"
  by (simp add: trunc_float64_def)

lemma decode_float_size_image:
  "decode_members float_size_image zero_transient =
     Inr \<lparr>tmp = zero_Image, p_SizeBytes = IFloat64 (F64 4503599627370496 (- 22)),
          p_CreatedAt = ''2016-01-05T10:20:30Z'', p_UpdatedAt = []\<rparr>"
  by (simp add: float_size_image_def match_defs ParseFloat_float_2_30 zero_transient_def)

lemma member_size_float_size_image:
  "member P_SizeBytes float_size_image = Some (JNumber (FloatLit 10737418240 (- 1)))"
  by (simp add: float_size_image_def member_Cons member_Nil match_defs)

lemma decode_string_size_image:
  "decode_members string_size_image zero_transient =
     Inr \<lparr>tmp = zero_Image, p_SizeBytes = IString ''1073741824'',
          p_CreatedAt = [], p_UpdatedAt = []\<rparr>"
  by (simp add: string_size_image_def match_defs zero_transient_def)

lemma member_size_string_size_image:
  "member P_SizeBytes string_size_image = Some (JString ''1073741824'')"
  by (simp add: string_size_image_def member_Cons member_Nil match_defs)

lemma decode_null_size_image:
  "decode_members null_size_image zero_transient =
     Inr \<lparr>tmp = zero_Image, p_SizeBytes = INil, p_CreatedAt = [], p_UpdatedAt = []\<rparr>"
  by (simp add: null_size_image_def match_defs zero_transient_def)

lemma decode_huge_size_image:
  "decode_members huge_size_image zero_transient =
     Inl (UnmarshalTypeError (JNumber (FloatLit 1 400)) ''float64'')"
  by (simp add: huge_size_image_def match_defs ParseFloat_1e400)

theorem size_number_or_type_error_witness:
  "Unmarshal_transient (JObject float_size_image) =
     Inr (Some \<lparr>tmp = zero_Image, p_SizeBytes = IFloat64 (F64 4503599627370496 (- 22)),
                p_CreatedAt = ''2016-01-05T10:20:30Z'', p_UpdatedAt = []\<rparr>) \<and>
   member P_SizeBytes float_size_image = Some (JNumber (FloatLit 10737418240 (- 1))) \<and>
   value_of (IntLit 1073741824) = value_of (FloatLit 10737418240 (- 1)) \<and>
   (\<exists>s' err. UnmarshalJSON zero_Image (JObject float_size_image) = Inr (s', err) \<and>
      sint (SizeBytes s') = 1073741824 \<and>
      (\<exists>s2'. UnmarshalJSON zero_Image (JObject active_image) = Inr (s2', None) \<and>
         SizeBytes s2' = SizeBytes s')) \<and>
   member P_SizeBytes string_size_image = Some (JString ''1073741824'') \<and>
   UnmarshalJSON zero_Image (JObject string_size_image) =
     Inr (zero_Image, Some (UnknownSizeType ''string'' (IString ''1073741824'')))"
proof -
  have u1: "Unmarshal_transient (JObject float_size_image) =
     Inr (Some \<lparr>tmp = zero_Image, p_SizeBytes = IFloat64 (F64 4503599627370496 (- 22)),
                p_CreatedAt = ''2016-01-05T10:20:30Z'', p_UpdatedAt = []\<rparr>)"
    by (simp add: decode_float_size_image)
  have u2: "Unmarshal_transient (JObject active_image) =
     Inr (Some \<lparr>tmp = zero_Image\<lparr>ID := ''abc'', Name := ''cirros''\<rparr>,
          p_SizeBytes = IFloat64 (F64 4503599627370496 (- 22)),
          p_CreatedAt = ''2016-01-05T10:20:30Z'',
          p_UpdatedAt = ''2016-01-05T10:20:31Z''\<rparr>)"
    by (simp add: decode_active_image)
  have u3: "Unmarshal_transient (JObject string_size_image) =
     Inr (Some \<lparr>tmp = zero_Image, p_SizeBytes = IString ''1073741824'',
          p_CreatedAt = [], p_UpdatedAt = []\<rparr>)"
    by (simp add: decode_string_size_image)
  have veq: "value_of (IntLit 1073741824) = value_of (FloatLit 10737418240 (- 1))"
    by (simp add: value_of_float_2_30 value_of_int_2_30)
  from UnmarshalJSON_active_image obtain s2'
    where ok2: "UnmarshalJSON zero_Image (JObject active_image) = Inr (s2', None)" by blast
  note th = size_number_or_type_error [OF u1 member_size_float_size_image, of zero_Image]
  from th [THEN conjunct1, rule_format, OF refl]
  obtain f s' err
    where f: "round_float64 (value_of (FloatLit 10737418240 (- 1))) = Some f"
      and r: "UnmarshalJSON zero_Image (JObject float_size_image) = Inr (s', err)"
      and sz: "in_int64 (trunc_float64 f) \<longrightarrow> sint (SizeBytes s') = trunc_float64 f"
      and all: "\<forall>kvs2 p2 n2 s2 s2' err2.
                  Unmarshal_transient (JObject kvs2) = Inr (Some p2) \<and>
                  member P_SizeBytes kvs2 = Some (JNumber n2) \<and>
                  value_of n2 = value_of (FloatLit 10737418240 (- 1)) \<and>
                  UnmarshalJSON s2 (JObject kvs2) = Inr (s2', err2)
                  \<longrightarrow> SizeBytes s2' = SizeBytes s'"
    by (elim exE conjE)
  have same: "SizeBytes s2' = SizeBytes s'"
    if "Unmarshal_transient (JObject kvs2) = Inr (Some p2)"
      and "member P_SizeBytes kvs2 = Some (JNumber n2)"
      and "value_of n2 = value_of (FloatLit 10737418240 (- 1))"
      and "UnmarshalJSON s2 (JObject kvs2) = Inr (s2', err2)"
    for kvs2 p2 n2 s2 s2' err2
    using all that by blast
  from f have "f = F64 4503599627370496 (- 22)"
    by (simp add: value_of_float_2_30 round_float64_2_30)
  with sz have 1: "sint (SizeBytes s') = 1073741824"
    by (simp add: trunc_2_30 in_int64_def)
  from same [OF u2 member_size_active_image veq ok2] have 2: "SizeBytes s2' = SizeBytes s'" .
  from size_number_or_type_error [OF u3 member_size_string_size_image, of zero_Image,
      THEN conjunct2, THEN conjunct1, rule_format, OF refl]
  have 3: "UnmarshalJSON zero_Image (JObject string_size_image) =
     Inr (zero_Image, Some (UnknownSizeType ''string'' (IString ''1073741824'')))"
    by simp
  from u1 member_size_float_size_image veq r 1 ok2 2 member_size_string_size_image 3
  show ?thesis by blast
qed

text \<open>
  The claim as stated fails twice: a size given as \<^verbatim>\<open>null\<close>, a JSON type other than
  a number, does not make the decode fail; and a JSON number beyond the range of float64
  is not accepted, \<^verbatim>\<open>json.Unmarshal\<close> rejects it.
\<close>

theorem size_claim_counterexample:
  "top_level null_size_image ''size'' = Some JNull \<and>
   UnmarshalJSON zero_Image (JObject null_size_image) = Inr (zero_Image, None) \<and>
   top_level huge_size_image ''size'' = Some (JNumber (FloatLit 1 400)) \<and>
   UnmarshalJSON zero_Image (JObject huge_size_image) =
     Inr (zero_Image, Some (UnmarshalTypeError (JNumber (FloatLit 1 400)) ''float64''))"
  using UnmarshalJSON_nil [OF decode_null_size_image, of zero_Image]
    UnmarshalJSON_error [OF decode_huge_size_image, of zero_Image]
  by (simp add: top_level_def null_size_image_def huge_size_image_def)

section \<open>Pages\<close>

text \<open>
  C5.  \<open>IsEmpty\<close> of an image page and of a volume page is the spec's \<open>isEmpty\<close> over the
  collection extractor of the package: it gives true exactly when the extractor, applied
  to the same page, gives a slice of length zero, it gives the error the extractor gives,
  and it panics when the extractor does.
\<close>

theorem IsEmpty_reuses_extractor:
  "ImagePage_IsEmpty r = spec_isEmpty ExtractImages (ImagePage r) \<and>
   (\<forall>images err. ExtractImages (ImagePage r) = Inr (images, err) \<longrightarrow>
      ImagePage_IsEmpty r = Inr (length images = 0, err)) \<and>
   (\<forall>pn. ExtractImages (ImagePage r) = Inl pn \<longrightarrow> ImagePage_IsEmpty r = Inl pn) \<and>
   VolumePage_IsEmpty unmarshal r = spec_isEmpty (ExtractVolumes unmarshal) (VolumePage r) \<and>
   (\<forall>volumes err. ExtractVolumes unmarshal (VolumePage r) = Inr (volumes, err) \<longrightarrow>
      VolumePage_IsEmpty unmarshal r = Inr (length volumes = 0, err)) \<and>
   (\<forall>pn. ExtractVolumes unmarshal (VolumePage r) = Inl pn \<longrightarrow>
      VolumePage_IsEmpty unmarshal r = Inl pn)"
  by (simp add: ImagePage_IsEmpty_def VolumePage_IsEmpty_def spec_isEmpty_def
      split: sum.splits prod.splits)

lemma ExtractImages_empty_image_page:
  "ExtractImages (ImagePage empty_image_page) = Inr ([], None)"
  by (simp add: ExtractImages_def ExtractInto_collection_def empty_image_page_def page_of_def
      top_level_def)

lemma ExtractImages_failed_page:
  "ExtractImages (ImagePage failed_page) = Inr ([], Some (TransportError ''connection refused''))"
  by (simp add: ExtractImages_def ExtractInto_collection_def failed_page_def page_of_def)

lemma ExtractImages_one_image_page:
  "\<exists>s'. ExtractImages (ImagePage one_image_page) = Inr ([s'], None)"
proof -
  from UnmarshalJSON_active_image obtain s'
    where "UnmarshalJSON zero_Image (JObject active_image) = Inr (s', None)" by blast
  then have "ExtractImages (ImagePage one_image_page) = Inr ([s'], None)"
    by (simp add: ExtractImages_def ExtractInto_collection_def one_image_page_def page_of_def
        top_level_def)
  then show ?thesis ..
qed

theorem IsEmpty_reuses_extractor_witness:
  "ExtractImages (ImagePage empty_image_page) = Inr ([], None) \<and>
   ImagePage_IsEmpty empty_image_page = Inr (True, None) \<and>
   (\<exists>s'. ExtractImages (ImagePage one_image_page) = Inr ([s'], None)) \<and>
   ImagePage_IsEmpty one_image_page = Inr (False, None) \<and>
   ImagePage_IsEmpty failed_page = Inr (True, Some (TransportError ''connection refused''))"
proof -
  note th = IsEmpty_reuses_extractor [THEN conjunct2, THEN conjunct1, rule_format]
  from ExtractImages_one_image_page obtain s'
    where one: "ExtractImages (ImagePage one_image_page) = Inr ([s'], None)" by blast
  from th [OF ExtractImages_empty_image_page] th [OF one] th [OF ExtractImages_failed_page]
    ExtractImages_empty_image_page one
  show ?thesis by auto
qed

text \<open>
  C9.  \<open>ExtractImages\<close> and \<open>ExtractVolumes\<close> assert the type of their page without a
  check: for every page that is not an \<open>ImagePage\<close> (a \<open>VolumePage\<close>) the call panics
  with the failed type assertion and returns nothing, no error either; a page of the
  matching type is handed to the extraction.
\<close>

theorem Extract_type_assertion:
  "((\<forall>lp. r \<noteq> ImagePage lp) \<longrightarrow> ExtractImages r = Inl (TypeAssertion ''images.ImagePage'')) \<and>
   ((\<forall>lp. r \<noteq> VolumePage lp) \<longrightarrow>
      ExtractVolumes unmarshal r = Inl (TypeAssertion ''volumes.VolumePage'')) \<and>
   ExtractImages (ImagePage lp) = ExtractInto_collection lp ''images'' (UnmarshalJSON zero_Image) \<and>
   ExtractVolumes unmarshal (VolumePage lp) = ExtractInto_collection lp ''volumes'' unmarshal"
  by (cases r) (simp_all add: ExtractImages_def ExtractVolumes_def)

theorem Extract_type_assertion_witness:
  "ExtractImages (VolumePage last_volume_page) = Inl (TypeAssertion ''images.ImagePage'') \<and>
   ExtractImages NilPage = Inl (TypeAssertion ''images.ImagePage'') \<and>
   ExtractVolumes objects_only (ImagePage empty_image_page) =
     Inl (TypeAssertion ''volumes.VolumePage'') \<and>
   ExtractVolumes objects_only (OtherPage ''snapshots.SnapshotPage'' last_volume_page) =
     Inl (TypeAssertion ''volumes.VolumePage'')"
proof -
  note th = Extract_type_assertion [where unmarshal = objects_only]
  from th [of "VolumePage last_volume_page"] th [of NilPage]
    th [of "ImagePage empty_image_page"]
    th [of "OtherPage ''snapshots.SnapshotPage'' last_volume_page"]
  show ?thesis by simp
qed

lemma decode_all_first_failure:
  assumes "\<forall>v \<in> set good. \<exists>x. dec v = Inr (x, None)" and "dec bad = Inr (y, Some e)"
  shows "decode_all dec (good @ bad # rest) = Inr (Inl e)"
  using assms by (induction good) auto

lemma ExtractInto_collection_first_failure:
  assumes "Err lp = None" and "Body lp = JObject kvs"
    and "top_level kvs name = Some (JArray (good @ bad # rest))"
    and "\<forall>v \<in> set good. \<exists>x. dec v = Inr (x, None)" and "dec bad = Inr (y, Some e)"
  shows "ExtractInto_collection lp name dec = Inr ([], Some e)"
  using assms(1-3) decode_all_first_failure [OF assms(4,5), of rest]
  by (simp add: ExtractInto_collection_def)

text \<open>
  C6.  For every page whose body is an object, received without a transport error, in
  which an element of the collection array fails to decode after elements that decode,
  \<open>ExtractImages\<close> and \<open>ExtractVolumes\<close> return the error of that element for the whole
  call, and the slice they return is empty: no element decoded before the failure is
  delivered.
\<close>

theorem collection_all_or_nothing:
  assumes "Err lp = None" and "Body lp = JObject kvs"
  shows "(\<forall>good bad rest y e.
            top_level kvs ''images'' = Some (JArray (good @ bad # rest)) \<and>
            (\<forall>v \<in> set good. \<exists>x. UnmarshalJSON zero_Image v = Inr (x, None)) \<and>
            UnmarshalJSON zero_Image bad = Inr (y, Some e)
            \<longrightarrow> ExtractImages (ImagePage lp) = Inr ([], Some e)) \<and>
         (\<forall>good bad rest y e.
            top_level kvs ''volumes'' = Some (JArray (good @ bad # rest)) \<and>
            (\<forall>v \<in> set good. \<exists>x. unmarshal v = Inr (x, None)) \<and>
            unmarshal bad = Inr (y, Some e)
            \<longrightarrow> ExtractVolumes unmarshal (VolumePage lp) = Inr ([], Some e))"
proof -
  have "ExtractImages (ImagePage lp) = Inr ([], Some e)"
    if "top_level kvs ''images'' = Some (JArray (good @ bad # rest))"
      and "\<forall>v \<in> set good. \<exists>x. UnmarshalJSON zero_Image v = Inr (x, None)"
      and "UnmarshalJSON zero_Image bad = Inr (y, Some e)" for good bad rest y e
    using ExtractInto_collection_first_failure [OF assms that]
    by (simp add: ExtractImages_def)
  moreover have "ExtractVolumes unmarshal (VolumePage lp) = Inr ([], Some e)"
    if "top_level kvs ''volumes'' = Some (JArray (good @ bad # rest))"
      and "\<forall>v \<in> set good. \<exists>x. unmarshal v = Inr (x, None)"
      and "unmarshal bad = Inr (y, Some e)" for good bad rest y e
    using ExtractInto_collection_first_failure [OF assms that]
    by (simp add: ExtractVolumes_def)
  ultimately show ?thesis by blast
qed

lemma UnmarshalJSON_bad_created_image:
  "UnmarshalJSON zero_Image (JObject bad_created_image) =
     Inr (zero_Image\<lparr>SizeBytes := 1073741824\<rparr>, Some (TimeParseError ''yesterday''))"
  using UnmarshalJSON_float_bad_created
    [OF decode_bad_created_image, simplified, OF refl time_Parse_yesterday]
  by (simp add: int64_2_30 zero_Image_def)

theorem collection_all_or_nothing_witness:
  "Err bad_image_page = None \<and>
   Body bad_image_page = JObject [(''images'',
       JArray [JObject active_image, JObject bad_created_image, JObject active_image])] \<and>
   (\<exists>x. UnmarshalJSON zero_Image (JObject active_image) = Inr (x, None)) \<and>
   (\<exists>y. UnmarshalJSON zero_Image (JObject bad_created_image) =
      Inr (y, Some (TimeParseError ''yesterday''))) \<and>
   ExtractImages (ImagePage bad_image_page) = Inr ([], Some (TimeParseError ''yesterday'')) \<and>
   ExtractVolumes objects_only (VolumePage bad_volume_page) =
     Inr ([], Some (UnmarshalTypeError (JString ''vol-2'') ''volumes.Volume''))"
proof -
  have e: "Err bad_image_page = None"
    and b: "Body bad_image_page = JObject [(''images'',
       JArray [JObject active_image, JObject bad_created_image, JObject active_image])]"
    by (simp_all add: bad_image_page_def page_of_def)
  have t: "top_level [(''images'',
       JArray [JObject active_image, JObject bad_created_image, JObject active_image])] ''images''
     = Some (JArray ([JObject active_image] @ JObject bad_created_image # [JObject active_image]))"
    by (simp add: top_level_def)
  have g: "\<forall>v \<in> set [JObject active_image]. \<exists>x. UnmarshalJSON zero_Image v = Inr (x, None)"
    using UnmarshalJSON_active_image by simp
  from collection_all_or_nothing [OF e b, THEN conjunct1, rule_format, OF conjI [OF t conjI
        [OF g UnmarshalJSON_bad_created_image]]]
  have 1: "ExtractImages (ImagePage bad_image_page) = Inr ([], Some (TimeParseError ''yesterday''))" .
  have e2: "Err bad_volume_page = None"
    and b2: "Body bad_volume_page =
        JObject [(''volumes'', JArray [JObject [], JString ''vol-2'', JObject []])]"
    by (simp_all add: bad_volume_page_def page_of_def)
  have t2: "top_level [(''volumes'', JArray [JObject [], JString ''vol-2'', JObject []])] ''volumes''
     = Some (JArray ([JObject []] @ JString ''vol-2'' # [JObject []]))"
    by (simp add: top_level_def)
  have g2: "\<forall>v \<in> set [JObject []]. \<exists>x. objects_only v = Inr (x, None)"
    by (simp add: objects_only_def)
  have f2: "objects_only (JString ''vol-2'') =
      Inr (zero_Volume, Some (UnmarshalTypeError (JString ''vol-2'') ''volumes.Volume''))"
    by (simp add: objects_only_def)
  from collection_all_or_nothing [OF e2 b2, THEN conjunct2, rule_format, OF conjI [OF t2 conjI
        [OF g2 f2]]]
  have 2: "ExtractVolumes objects_only (VolumePage bad_volume_page) =
     Inr ([], Some (UnmarshalTypeError (JString ''vol-2'') ''volumes.Volume''))" .
  from e b UnmarshalJSON_active_image UnmarshalJSON_bad_created_image 1 2
  show ?thesis by blast
qed

lemma ExtractNextURL_none:
  "\<forall>l \<in> set links. Rel l \<noteq> ''next'' \<Longrightarrow> ExtractNextURL links = ([], None)"
proof -
  assume "\<forall>l \<in> set links. Rel l \<noteq> ''next''"
  then have "filter (\<lambda>l. Rel l = ''next'') links = []"
    by (simp add: filter_empty_conv)
  then show ?thesis by (simp add: ExtractNextURL_def)
qed

text \<open>
  C7.  For every page whose pagination metadata decodes and carries no next reference,
  \<open>NextPageURL\<close> returns the empty locator and no error: for an image page when the
  \<^verbatim>\<open>next\<close> string is absent or empty, for a volume page when none of the entries of
  \<^verbatim>\<open>volumes_links\<close> has the relation \<^verbatim>\<open>next\<close>.
\<close>

theorem terminal_page_empty_locator:
  "(Err r = None \<and> Body r = JObject kvs \<and>
      (top_level kvs ''next'' = None \<or> top_level kvs ''next'' = Some (JString []))
      \<longrightarrow> ImagePage_NextPageURL resolve r = ([], None)) \<and>
   (ExtractInto_collection page ''volumes_links'' unmarshal_Link = Inr (links, None) \<and>
      (\<forall>l \<in> set links. Rel l \<noteq> ''next'')
      \<longrightarrow> VolumePage_NextPageURL page = Inr ([], None))"
proof -
  have "ImagePage_NextPageURL resolve r = ([], None)"
    if "Err r = None" and "Body r = JObject kvs"
      and "top_level kvs ''next'' = None \<or> top_level kvs ''next'' = Some (JString [])"
    using that
    by (auto simp: ImagePage_NextPageURL_def ExtractInto_string_def string_field_def
        nextPageURL_def)
  moreover have "VolumePage_NextPageURL page = Inr ([], None)"
    if "ExtractInto_collection page ''volumes_links'' unmarshal_Link = Inr (links, None)"
      and "\<forall>l \<in> set links. Rel l \<noteq> ''next''"
    using that(1) ExtractNextURL_none [OF that(2)]
    by (simp add: VolumePage_NextPageURL_def)
  ultimately show ?thesis by blast
qed

lemma links_last_volume_page:
  "ExtractInto_collection last_volume_page ''volumes_links'' unmarshal_Link =
     Inr ([\<lparr>Href = ''http://cinder:8776/v2/volumes?marker=1'', Rel = ''previous''\<rparr>], None)"
  by (simp add: ExtractInto_collection_def last_volume_page_def page_of_def top_level_def
      unmarshal_Link_def string_field_def)

theorem terminal_page_empty_locator_witness:
  "Err empty_image_page = None \<and>
   Body empty_image_page = JObject [(''images'', JArray []), (''next'', JString [])] \<and>
   top_level [(''images'', JArray []), (''next'', JString [])] ''next'' = Some (JString []) \<and>
   ImagePage_NextPageURL (\<lambda>base next. base @ next) empty_image_page = ([], None) \<and>
   top_level [(''images'', JArray [JObject active_image])] ''next'' = None \<and>
   ImagePage_NextPageURL (\<lambda>base next. base @ next) one_image_page = ([], None) \<and>
   ExtractInto_collection last_volume_page ''volumes_links'' unmarshal_Link =
     Inr ([\<lparr>Href = ''http://cinder:8776/v2/volumes?marker=1'', Rel = ''previous''\<rparr>], None) \<and>
   VolumePage_NextPageURL last_volume_page = Inr ([], None)"
proof -
  have e: "Err empty_image_page = None"
    and b: "Body empty_image_page = JObject [(''images'', JArray []), (''next'', JString [])]"
    and t: "top_level [(''images'', JArray []), (''next'', JString [])] ''next'' = Some (JString [])"
    by (simp_all add: empty_image_page_def page_of_def top_level_def)
  have e1: "Err one_image_page = None"
    and b1: "Body one_image_page = JObject [(''images'', JArray [JObject active_image])]"
    and t1: "top_level [(''images'', JArray [JObject active_image])] ''next'' = None"
    by (simp_all add: one_image_page_def page_of_def top_level_def)
  note th = terminal_page_empty_locator
  from th [THEN conjunct1, rule_format, OF conjI [OF e conjI [OF b disjI2 [OF t]]]]
  have 1: "ImagePage_NextPageURL (\<lambda>base next. base @ next) empty_image_page = ([], None)" .
  from th [THEN conjunct1, rule_format, OF conjI [OF e1 conjI [OF b1 disjI1 [OF t1]]]]
  have 2: "ImagePage_NextPageURL (\<lambda>base next. base @ next) one_image_page = ([], None)" .
  have n: "\<forall>l \<in> set [\<lparr>Href = ''http://cinder:8776/v2/volumes?marker=1'', Rel = ''previous''\<rparr>].
             Rel l \<noteq> ''next''"
    by simp
  from th [THEN conjunct2, rule_format, OF conjI [OF links_last_volume_page n]]
  have 3: "VolumePage_NextPageURL last_volume_page = Inr ([], None)" .
  from e b t 1 t1 2 links_last_volume_page 3 show ?thesis by blast
qed

section \<open>What the decode keeps of the modelled attributes\<close>

lemma store_string_other:
  "store t v p = Inr p' \<Longrightarrow> t \<noteq> t0 \<Longrightarrow> string_attr t0 = Some get \<Longrightarrow>
     get (tmp p') = get (tmp p)"
  by (cases t; cases t0) (auto simp: map_sum_id_Inr in_tmp_def)

lemma store_string_hit:
  "store t0 v p = Inr p' \<Longrightarrow> string_attr t0 = Some get \<Longrightarrow> v = JString x \<Longrightarrow>
     get (tmp p') = x"
  by (cases t0) (auto simp: map_sum_id_Inr in_tmp_def)

lemma store_int_other:
  "store t v p = Inr p' \<Longrightarrow> t \<noteq> t0 \<Longrightarrow> int_attr t0 = Some get \<Longrightarrow>
     get (tmp p') = get (tmp p)"
  by (cases t; cases t0) (auto simp: map_sum_id_Inr in_tmp_def)

lemma store_int_hit:
  "store t0 v p = Inr p' \<Longrightarrow> int_attr t0 = Some get \<Longrightarrow> v = JNumber (IntLit i) \<Longrightarrow>
     sint (get (tmp p')) = i"
  by (cases t0) (auto simp: map_sum_id_Inr in_tmp_def sint_int64 split: if_splits)

lemma store_slice_other:
  "store t v p = Inr p' \<Longrightarrow> t \<noteq> t0 \<Longrightarrow> slice_attr t0 = Some get \<Longrightarrow>
     get (tmp p') = get (tmp p)"
  by (cases t; cases t0) (auto simp: map_sum_id_Inr in_tmp_def)

lemma dec_elems_strings: "dec_elems (map JString xs) slots = Inr xs"
  by (induction xs arbitrary: slots) auto

lemma dec_strings_strings:
  "dec_strings (JArray (map JString xs)) old = Inr y \<Longrightarrow> map_option fst y = Some xs"
  by (auto simp: dec_elems_strings Let_def split: if_splits)

lemma store_slice_hit:
  "store t0 v p = Inr p' \<Longrightarrow> slice_attr t0 = Some get \<Longrightarrow> v = JArray (map JString xs) \<Longrightarrow>
     map_option fst (get (tmp p')) = Some xs"
  by (cases t0)
     (auto simp: map_sum_id_Inr in_tmp_def simp del: dec_strings.simps dest!: dec_strings_strings)

lemma store_protected_other:
  "store t v p = Inr p' \<Longrightarrow> t \<noteq> T_Protected \<Longrightarrow> Protected (tmp p') = Protected (tmp p)"
  by (cases t) (auto simp: map_sum_id_Inr in_tmp_def)

lemma store_protected_hit:
  "store T_Protected v p = Inr p' \<Longrightarrow> v = JBool b \<Longrightarrow> Protected (tmp p') = b"
  by (auto simp: map_sum_id_Inr in_tmp_def)

lemma store_metadata_other:
  "store t v p = Inr p' \<Longrightarrow> t \<noteq> T_Metadata \<Longrightarrow> Metadata (tmp p') = Metadata (tmp p)"
  by (cases t) (auto simp: map_sum_id_Inr in_tmp_def)

lemma dec_entries_strings:
  "dec_entries (map (\<lambda>(k, x). (k, JString x)) kxs) m = Inr (m ++ map_of (rev kxs))"
proof (induction kxs arbitrary: m)
  case Nil
  then show ?case by simp
next
  case (Cons kx kxs)
  obtain k x where kx: "kx = (k, x)" by (cases kx)
  have "dec_entries (map (\<lambda>(k, x). (k, JString x)) (kx # kxs)) m =
        dec_entries (map (\<lambda>(k, x). (k, JString x)) kxs) (m(k \<mapsto> x))"
    by (simp add: kx)
  also have "\<dots> = Inr (m(k \<mapsto> x) ++ map_of (rev kxs))"
    by (rule Cons.IH)
  also have "m(k \<mapsto> x) ++ map_of (rev kxs) = m ++ map_of (rev (kx # kxs))"
    by (rule ext) (simp add: kx map_add_def split: option.splits)
  finally show ?case .
qed

lemma store_metadata_hit:
  "store T_Metadata v p = Inr p' \<Longrightarrow> Metadata (tmp p) = None \<Longrightarrow>
     v = JObject (map (\<lambda>(k, x). (k, JString x)) kxs) \<Longrightarrow>
     Metadata (tmp p') = Some (map_of (rev kxs))"
  by (auto simp: map_sum_id_Inr in_tmp_def dec_entries_strings)

lemma members_of_Cons:
  "members_of t ((k, v) # kvs) =
     (if match_field transient_fields k = Some t then v # members_of t kvs else members_of t kvs)"
  by (simp add: members_of_def)

lemma member_None_iff: "member t kvs = None \<longleftrightarrow> members_of t kvs = []"
  by (simp add: member_def split: list.splits)

text \<open>A field with one member holds what that member stores into the field as it started.\<close>

lemma decode_members_single:
  assumes frame: "\<And>t v p p'. store t v p = Inr p' \<Longrightarrow> t \<noteq> t0 \<Longrightarrow> g p' = g p"
    and hit: "\<And>p p'. store t0 v p = Inr p' \<Longrightarrow> g p = g0 \<Longrightarrow> R (g p')"
  shows "decode_members kvs p = Inr p' \<Longrightarrow> members_of t0 kvs = [v] \<Longrightarrow> g p = g0 \<Longrightarrow> R (g p')"
proof (induction kvs arbitrary: p)
  case Nil
  then show ?case by (simp add: members_of_def)
next
  case (Cons kv kvs)
  obtain k w where kv: "kv = (k, w)" by (cases kv)
  show ?case
  proof (cases "match_field transient_fields k = Some t0")
    case True
    with Cons.prems(2) kv have w: "w = v" and rest: "member t0 kvs = None"
      by (simp_all add: members_of_Cons member_None_iff)
    from Cons.prems(1) [unfolded kv] show ?thesis
    proof (cases rule: decode_members_Cons_Inr)
      case skip
      with True show ?thesis by simp
    next
      case (store t q)
      with True w have "store t0 v p = Inr q" by simp
      from hit [OF this Cons.prems(3)]
        decode_members_absent [of t0 g, OF frame store(3) rest]
      show ?thesis by simp
    qed
  next
    case False
    with Cons.prems(2) kv have rest: "members_of t0 kvs = [v]"
      by (simp add: members_of_Cons)
    from Cons.prems(1) [unfolded kv] show ?thesis
    proof (cases rule: decode_members_Cons_Inr)
      case skip
      from Cons.IH [OF skip(2) rest Cons.prems(3)] show ?thesis .
    next
      case (store t q)
      with False have "t \<noteq> t0" by simp
      from frame [OF store(2) this] Cons.prems(3) have "g q = g0" by simp
      from Cons.IH [OF store(3) rest this] show ?thesis .
    qed
  qed
qed

lemma bitlen_upper: "n < 2 ^ bitlen n"
proof (induction n rule: bitlen.induct)
  case (1 n)
  show ?case
  proof (cases "n = 0")
    case True
    then show ?thesis by (subst bitlen.simps) simp
  next
    case False
    with 1 have "n div 2 < 2 ^ bitlen (n div 2)" by simp
    then have "n < 2 * 2 ^ bitlen (n div 2)" by linarith
    with False show ?thesis by (subst bitlen.simps) simp
  qed
qed

lemma bitlen_le: "n < 2 ^ k \<Longrightarrow> bitlen n \<le> k"
proof (induction k arbitrary: n)
  case 0
  then show ?case by (subst bitlen.simps) simp
next
  case (Suc k)
  then have "n div 2 < 2 ^ k" by simp
  from Suc.IH [OF this] show ?case by (subst bitlen.simps) simp
qed

lemma bitlen_pos: "0 < n \<Longrightarrow> 0 < bitlen n"
  by (subst bitlen.simps) simp

text \<open>An integer of magnitude below \<open>2 ^ 53\<close> is a float64: rounding keeps it.\<close>

lemma mantissa_of_int:
  assumes "0 < j" and "j < 2 ^ 53"
  defines "b \<equiv> bitlen (nat j)"
  shows "binade (of_int j) = int b - 53"
    and "scale (of_int j) (int b - 53) = of_int (j * 2 ^ (53 - b))"
    and "j * 2 ^ (53 - b) < 2 ^ 53"
    and "0 < b" and "b \<le> 53"
proof -
  from assms(2) have "nat j < 2 ^ 53" by (simp add: nat_less_iff)
  then show b: "b \<le> 53" unfolding b_def by (rule bitlen_le)
  from assms(1) show b0: "0 < b" unfolding b_def by (simp add: bitlen_pos)
  from bitlen_upper [of "nat j"] assms(1) have jb: "j < 2 ^ b"
    unfolding b_def by (simp add: nat_less_iff)
  show sc: "scale (of_int j) (int b - 53) = of_int (j * 2 ^ (53 - b))"
  proof (cases "b = 53")
    case True
    then show ?thesis by (simp add: scale_def)
  next
    case False
    with b have "b < 53" by simp
    then have "nat (53 - int b) = 53 - b" by simp
    with \<open>b < 53\<close> show ?thesis by (simp add: scale_def)
  qed
  have "j * 2 ^ (53 - b) < 2 ^ b * 2 ^ (53 - b)"
    using jb by simp
  also have "\<dots> = (2::int) ^ 53"
    using b by (simp flip: power_add)
  finally show m: "j * 2 ^ (53 - b) < 2 ^ 53" .
  then have m': "(of_int (j * 2 ^ (53 - b)) :: rat) < 2 ^ 53"
    by (metis of_int_less_iff of_int_numeral of_int_power)
  from assms(1) have q1: "(1::rat) \<le> of_int j" by simp
  have fl: "nat \<lfloor>(of_int j :: rat)\<rfloor> = nat j" by simp
  show "binade (of_int j) = int b - 53"
    using q1 m' by (simp add: binade_def Let_def fl b_def [symmetric] sc)
qed

lemma trunc_mantissa:
  assumes "0 < j" and "b \<le> 53"
  shows "trunc_float64 (F64 (j * 2 ^ (53 - b)) (int b - 53)) = j"
    and "trunc_float64 (F64 (- (j * 2 ^ (53 - b))) (int b - 53)) = - j"
proof -
  show "trunc_float64 (F64 (j * 2 ^ (53 - b)) (int b - 53)) = j"
  proof (cases "b = 53")
    case True
    then show ?thesis by (simp add: trunc_float64_def)
  next
    case False
    with assms(2) have "b < 53" by simp
    then have "nat (53 - int b) = 53 - b" by simp
    with \<open>b < 53\<close> assms(1) show ?thesis by (simp add: trunc_float64_def)
  qed
  show "trunc_float64 (F64 (- (j * 2 ^ (53 - b))) (int b - 53)) = - j"
  proof (cases "b = 53")
    case True
    then show ?thesis by (simp add: trunc_float64_def)
  next
    case False
    with assms(2) have "b < 53" by simp
    then have "nat (53 - int b) = 53 - b" by simp
    moreover from assms(1) have "0 < j * 2 ^ (53 - b)"
      by (simp add: zero_less_mult_iff)
    then have "\<not> 0 \<le> - (j * 2 ^ (53 - b))" by linarith
    ultimately show ?thesis using \<open>b < 53\<close> by (simp add: trunc_float64_def)
  qed
qed

lemma round_float64_int_exact:
  assumes "\<bar>i\<bar> < 2 ^ 53"
  shows "\<exists>f. round_float64 (of_int i) = Some f \<and> trunc_float64 f = i"
proof -
  consider "i = 0" | "0 < i" | "i < 0" by linarith
  then show ?thesis
  proof cases
    case 1
    then show ?thesis by (simp add: round_float64_def trunc_float64_def)
  next
    case 2
    with assms have lt: "i < 2 ^ 53" by simp
    define b where "b = bitlen (nat i)"
    note m = mantissa_of_int [OF 2 lt, folded b_def]
    from m(4) have mx: "max (int b - 53) (- 1074) = int b - 53" by simp
    from 2 have pos: "\<bar>(of_int i :: rat)\<bar> = of_int i" "(of_int i :: rat) \<noteq> 0"
      "\<not> (of_int i :: rat) < 0"
      by simp_all
    from m(3) have ne: "i * 2 ^ (53 - b) \<noteq> 2 ^ 53" by simp
    from m(5) have le: "\<not> 971 < int b - 53" by simp
    have "round_float64 (of_int i) = Some (F64 (i * 2 ^ (53 - b)) (int b - 53))"
      unfolding round_float64_def Let_def pos(1) m(1) mx m(2) round_half_even_int
      using pos(2,3) ne le by simp
    with trunc_mantissa(1) [OF 2 m(5)] show ?thesis by simp
  next
    case 3
    define j where "j = - i"
    from 3 assms have j: "0 < j" "j < 2 ^ 53" by (simp_all add: j_def)
    define b where "b = bitlen (nat j)"
    note m = mantissa_of_int [OF j, folded b_def]
    from m(4) have mx: "max (int b - 53) (- 1074) = int b - 53" by simp
    from 3 have neg: "\<bar>(of_int i :: rat)\<bar> = of_int j" "(of_int i :: rat) \<noteq> 0"
      "(of_int i :: rat) < 0"
      by (simp_all add: j_def)
    from m(3) have ne: "j * 2 ^ (53 - b) \<noteq> 2 ^ 53" by simp
    from m(5) have le: "\<not> 971 < int b - 53" by simp
    have "round_float64 (of_int i) = Some (F64 (- (j * 2 ^ (53 - b))) (int b - 53))"
      unfolding round_float64_def Let_def neg(1) m(1) mx m(2) round_half_even_int
      using neg(2,3) ne le by simp
    with trunc_mantissa(2) [OF j(1) m(5)] show ?thesis by (simp add: j_def)
  qed
qed

lemma UnmarshalJSON_success_shape:
  assumes ok: "UnmarshalJSON s (JObject kvs) = Inr (s', None)"
  obtains p a c u m where "decode_members kvs zero_transient = Inr p"
    and "s' = (tmp p)\<lparr>SizeBytes := a, CreatedAt := c, UpdatedAt := u, Properties := m\<rparr>"
proof -
  from ok obtain p where p: "decode_members kvs zero_transient = Inr p"
    by (cases "decode_members kvs zero_transient") (auto simp: UnmarshalJSON_error)
  show thesis
  proof (cases "p_SizeBytes p = INil")
    case True
    from UnmarshalJSON_nil [OF p True, of s] ok have "s' = tmp p" by simp
    then have "s' = (tmp p)\<lparr>SizeBytes := SizeBytes (tmp p), CreatedAt := CreatedAt (tmp p),
        UpdatedAt := UpdatedAt (tmp p), Properties := Properties (tmp p)\<rparr>"
      by simp
    with p show ?thesis by (rule that)
  next
    case False
    have "\<exists>f. p_SizeBytes p = IFloat64 f"
    proof (rule ccontr)
      assume "\<not> ?thesis"
      then have "\<And>f. p_SizeBytes p \<noteq> IFloat64 f" by blast
      from UnmarshalJSON_other [OF p refl False this] ok show False by simp
    qed
    then obtain f where f: "p_SizeBytes p = IFloat64 f" ..
    show ?thesis
    proof (cases "time_Parse_RFC3339 (p_CreatedAt p)")
      case (Inl e)
      from UnmarshalJSON_float_bad_created [OF p f Inl] ok show ?thesis by simp
    next
      case (Inr c)
      from UnmarshalJSON_float_created [OF p f Inr, of s] ok
      have "unmarshalCustomProperties
              ((tmp p)\<lparr>SizeBytes := int64_of_float64 f, CreatedAt := c,
                 UpdatedAt := fst (time_Parse (p_UpdatedAt p))\<rparr>)
              (JObject kvs) transient_type = (s', None)"
        by simp
      from unmarshalCustomProperties_frame [OF this] obtain m
        where "s' = (tmp p)\<lparr>SizeBytes := int64_of_float64 f, CreatedAt := c,
                 UpdatedAt := fst (time_Parse (p_UpdatedAt p)), Properties := m\<rparr>"
        by blast
      with p show ?thesis by (rule that)
    qed
  qed
qed

lemma UnmarshalJSON_success_times:
  assumes ok: "UnmarshalJSON s (JObject kvs) = Inr (s', None)"
    and size: "member P_SizeBytes kvs = Some (JNumber n)"
  obtains p f where "decode_members kvs zero_transient = Inr p"
    and "ParseFloat n = Some f" and "SizeBytes s' = int64_of_float64 f"
    and "time_Parse_RFC3339 (p_CreatedAt p) = Inr (CreatedAt s')"
    and "UpdatedAt s' = fst (time_Parse (p_UpdatedAt p))"
proof -
  from ok size obtain p f c where p: "decode_members kvs zero_transient = Inr p"
    and f: "p_SizeBytes p = IFloat64 f"
    and c: "time_Parse_RFC3339 (p_CreatedAt p) = Inr c"
    and r: "unmarshalCustomProperties
           ((tmp p)\<lparr>SizeBytes := int64_of_float64 f, CreatedAt := c,
              UpdatedAt := fst (time_Parse (p_UpdatedAt p))\<rparr>)
           (JObject kvs) transient_type = (s', None)"
    by (rule UnmarshalJSON_success_float [where v = "JNumber n"]) simp_all
  from decode_members_size_present [OF p size] f have pf: "ParseFloat n = Some f"
    by (auto split: option.splits)
  from unmarshalCustomProperties_frame [OF r] obtain m
    where "s' = (tmp p)\<lparr>SizeBytes := int64_of_float64 f, CreatedAt := c,
              UpdatedAt := fst (time_Parse (p_UpdatedAt p)), Properties := m\<rparr>"
    by blast
  then have "SizeBytes s' = int64_of_float64 f" "CreatedAt s' = c"
    "UpdatedAt s' = fst (time_Parse (p_UpdatedAt p))"
    by simp_all
  with p pf c show thesis by (auto intro: that)
qed

lemma store_updated_hit:
  "store P_UpdatedAt v p = Inr p' \<Longrightarrow> v = JString c \<Longrightarrow> p_UpdatedAt p' = c"
  by (simp add: map_sum_id_Inr) auto

lemma decode_members_updated_present:
  assumes "decode_members kvs p = Inr p'" and "member P_UpdatedAt kvs = Some (JString c)"
  shows "p_UpdatedAt p' = c"
proof -
  have "JString c = JString c \<longrightarrow> p_UpdatedAt p' = c"
  proof (rule decode_members_present
      [of P_UpdatedAt p_UpdatedAt "\<lambda>v x. v = JString c \<longrightarrow> x = c", OF _ _ assms])
    show "\<And>t v p p'. store t v p = Inr p' \<Longrightarrow> t \<noteq> P_UpdatedAt \<Longrightarrow> p_UpdatedAt p' = p_UpdatedAt p"
      by (rule store_updated_other)
    show "\<And>v p p'. store P_UpdatedAt v p = Inr p' \<Longrightarrow> v = JString c \<longrightarrow> p_UpdatedAt p' = c"
      using store_updated_hit by blast
  qed
  then show ?thesis by simp
qed

text \<open>
  C8 (amended).  For every payload that \<open>UnmarshalJSON\<close> decodes without error, the
  decode keeps the modelled attributes as follows.  A string, boolean or integer
  attribute given as a JSON value of its type is held exactly; \<^verbatim>\<open>tags\<close> and
  \<^verbatim>\<open>locations\<close> given as arrays of strings are held exactly; \<^verbatim>\<open>metadata\<close> given once,
  as an object of strings, is held exactly.  When size is a number, \<open>SizeBytes\<close> is the
  int64 conversion of the nearest float64, which is the number itself for an integer of
  magnitude below \<open>2 ^ 53\<close>; \<open>CreatedAt\<close> is the time that \<^verbatim>\<open>created_at\<close> denotes, and
  \<open>UpdatedAt\<close> the time that \<^verbatim>\<open>updated_at\<close> denotes when it is well formed.
\<close>

theorem decode_keeps_attributes:
  assumes "UnmarshalJSON s (JObject kvs) = Inr (s', None)"
  shows "(\<forall>t get x. string_attr t = Some get \<and> member t kvs = Some (JString x) \<longrightarrow> get s' = x) \<and>
         (\<forall>b. member T_Protected kvs = Some (JBool b) \<longrightarrow> Protected s' = b) \<and>
         (\<forall>t get i. int_attr t = Some get \<and> member t kvs = Some (JNumber (IntLit i))
            \<longrightarrow> sint (get s') = i) \<and>
         (\<forall>t get xs. slice_attr t = Some get \<and> member t kvs = Some (JArray (map JString xs))
            \<longrightarrow> map_option fst (get s') = Some xs) \<and>
         (\<forall>kxs. members_of T_Metadata kvs = [JObject (map (\<lambda>(k, x). (k, JString x)) kxs)]
            \<longrightarrow> Metadata s' = Some (map_of (rev kxs))) \<and>
         (\<forall>n. member P_SizeBytes kvs = Some (JNumber n) \<longrightarrow>
            (\<exists>f. round_float64 (value_of n) = Some f \<and> SizeBytes s' = int64_of_float64 f) \<and>
            (\<forall>i. n = IntLit i \<and> \<bar>i\<bar> < 2 ^ 53 \<longrightarrow> sint (SizeBytes s') = i) \<and>
            (\<forall>c. member P_CreatedAt kvs = Some (JString c)
               \<longrightarrow> time_Parse_RFC3339 c = Inr (CreatedAt s')) \<and>
            (\<forall>u t. member P_UpdatedAt kvs = Some (JString u) \<and> time_Parse_RFC3339 u = Inr t
               \<longrightarrow> UpdatedAt s' = t))"
proof -
  from assms obtain p a c u m where p: "decode_members kvs zero_transient = Inr p"
    and s': "s' = (tmp p)\<lparr>SizeBytes := a, CreatedAt := c, UpdatedAt := u, Properties := m\<rparr>"
    by (rule UnmarshalJSON_success_shape)
  have str: "get s' = x"
    if t: "string_attr t = Some get" and mem: "member t kvs = Some (JString x)" for t get x
  proof -
    have "JString x = JString x \<longrightarrow> get (tmp p) = x"
    proof (rule decode_members_present
        [of t "\<lambda>p. get (tmp p)" "\<lambda>v y. v = JString x \<longrightarrow> y = x", OF _ _ p mem])
      show "\<And>t' v p p'. store t' v p = Inr p' \<Longrightarrow> t' \<noteq> t \<Longrightarrow> get (tmp p') = get (tmp p)"
        using t by (rule store_string_other [rotated 2])
      show "\<And>v p p'. store t v p = Inr p' \<Longrightarrow> v = JString x \<longrightarrow> get (tmp p') = x"
        using t store_string_hit by blast
    qed
    moreover from t have "get s' = get (tmp p)"
      unfolding s' by (cases t) auto
    ultimately show ?thesis by simp
  qed
  have bool: "Protected s' = b" if mem: "member T_Protected kvs = Some (JBool b)" for b
  proof -
    have "JBool b = JBool b \<longrightarrow> Protected (tmp p) = b"
    proof (rule decode_members_present
        [of T_Protected "\<lambda>p. Protected (tmp p)" "\<lambda>v y. v = JBool b \<longrightarrow> y = b", OF _ _ p mem])
      show "\<And>t v p p'. store t v p = Inr p' \<Longrightarrow> t \<noteq> T_Protected \<Longrightarrow>
              Protected (tmp p') = Protected (tmp p)"
        by (rule store_protected_other)
      show "\<And>v p p'. store T_Protected v p = Inr p' \<Longrightarrow> v = JBool b \<longrightarrow> Protected (tmp p') = b"
        using store_protected_hit by blast
    qed
    then show ?thesis unfolding s' by simp
  qed
  have int: "sint (get s') = i"
    if t: "int_attr t = Some get" and mem: "member t kvs = Some (JNumber (IntLit i))" for t get i
  proof -
    have "JNumber (IntLit i) = JNumber (IntLit i) \<longrightarrow> sint (get (tmp p)) = i"
    proof (rule decode_members_present
        [of t "\<lambda>p. get (tmp p)" "\<lambda>v y. v = JNumber (IntLit i) \<longrightarrow> sint y = i", OF _ _ p mem])
      show "\<And>t' v p p'. store t' v p = Inr p' \<Longrightarrow> t' \<noteq> t \<Longrightarrow> get (tmp p') = get (tmp p)"
        using t by (rule store_int_other [rotated 2])
      show "\<And>v p p'. store t v p = Inr p' \<Longrightarrow> v = JNumber (IntLit i) \<longrightarrow> sint (get (tmp p')) = i"
        using t store_int_hit by blast
    qed
    moreover from t have "get s' = get (tmp p)"
      unfolding s' by (cases t) auto
    ultimately show ?thesis by simp
  qed
  have slice: "map_option fst (get s') = Some xs"
    if t: "slice_attr t = Some get" and mem: "member t kvs = Some (JArray (map JString xs))"
    for t get xs
  proof -
    have "JArray (map JString xs) = JArray (map JString xs) \<longrightarrow>
            map_option fst (get (tmp p)) = Some xs"
    proof (rule decode_members_present
        [of t "\<lambda>p. get (tmp p)"
            "\<lambda>v y. v = JArray (map JString xs) \<longrightarrow> map_option fst y = Some xs", OF _ _ p mem])
      show "\<And>t' v p p'. store t' v p = Inr p' \<Longrightarrow> t' \<noteq> t \<Longrightarrow> get (tmp p') = get (tmp p)"
        using t by (rule store_slice_other [rotated 2])
      show "\<And>v p p'. store t v p = Inr p' \<Longrightarrow>
              v = JArray (map JString xs) \<longrightarrow> map_option fst (get (tmp p')) = Some xs"
        using t store_slice_hit by blast
    qed
    moreover from t have "get s' = get (tmp p)"
      unfolding s' by (cases t) auto
    ultimately show ?thesis by simp
  qed
  have meta: "Metadata s' = Some (map_of (rev kxs))"
    if mem: "members_of T_Metadata kvs = [JObject (map (\<lambda>(k, x). (k, JString x)) kxs)]" for kxs
  proof -
    have "Metadata (tmp p) = Some (map_of (rev kxs))"
    proof (rule decode_members_single
        [of T_Metadata "\<lambda>p. Metadata (tmp p)" _ None
            "\<lambda>y. y = Some (map_of (rev kxs))", OF _ _ p mem])
      show "\<And>t v p p'. store t v p = Inr p' \<Longrightarrow> t \<noteq> T_Metadata \<Longrightarrow>
              Metadata (tmp p') = Metadata (tmp p)"
        by (rule store_metadata_other)
      show "\<And>p p'. store T_Metadata (JObject (map (\<lambda>(k, x). (k, JString x)) kxs)) p = Inr p' \<Longrightarrow>
              Metadata (tmp p) = None \<Longrightarrow> Metadata (tmp p') = Some (map_of (rev kxs))"
        using store_metadata_hit by blast
      show "Metadata (tmp zero_transient) = None"
        by (simp add: zero_transient_def zero_Image_def)
    qed
    then show ?thesis unfolding s' by simp
  qed
  have size: "(\<exists>f. round_float64 (value_of n) = Some f \<and> SizeBytes s' = int64_of_float64 f) \<and>
      (\<forall>i. n = IntLit i \<and> \<bar>i\<bar> < 2 ^ 53 \<longrightarrow> sint (SizeBytes s') = i) \<and>
      (\<forall>c. member P_CreatedAt kvs = Some (JString c)
         \<longrightarrow> time_Parse_RFC3339 c = Inr (CreatedAt s')) \<and>
      (\<forall>u t. member P_UpdatedAt kvs = Some (JString u) \<and> time_Parse_RFC3339 u = Inr t
         \<longrightarrow> UpdatedAt s' = t)"
    if mem: "member P_SizeBytes kvs = Some (JNumber n)" for n
  proof -
    from assms mem obtain q f where q: "decode_members kvs zero_transient = Inr q"
      and pf: "ParseFloat n = Some f" and sz: "SizeBytes s' = int64_of_float64 f"
      and cr: "time_Parse_RFC3339 (p_CreatedAt q) = Inr (CreatedAt s')"
      and up: "UpdatedAt s' = fst (time_Parse (p_UpdatedAt q))"
      by (rule UnmarshalJSON_success_times)
    from pf sz have 1: "\<exists>f. round_float64 (value_of n) = Some f \<and> SizeBytes s' = int64_of_float64 f"
      by (simp add: ParseFloat_def)
    have 2: "sint (SizeBytes s') = i" if "n = IntLit i" and small: "\<bar>i\<bar> < 2 ^ 53" for i
    proof -
      from round_float64_int_exact [OF small] pf that(1)
      have tr: "trunc_float64 f = i" by (simp add: ParseFloat_def value_of_def)
      from small have "in_int64 i" unfolding in_int64_def by (simp add: abs_less_iff)
      with tr sz show ?thesis by (simp add: sint_int64_of_float64)
    qed
    have 3: "time_Parse_RFC3339 c = Inr (CreatedAt s')"
      if "member P_CreatedAt kvs = Some (JString c)" for c
      using decode_members_created_present [OF q that] cr by simp
    have 4: "UpdatedAt s' = t"
      if "member P_UpdatedAt kvs = Some (JString u)" and "time_Parse_RFC3339 u = Inr t" for u t
      using decode_members_updated_present [OF q that(1)] up that(2)
      by (simp add: time_Parse_def)
    from 1 2 3 4 show ?thesis by blast
  qed
  from str bool int slice meta size show ?thesis by blast
qed

lemma UnmarshalJSON_float_ok:
  assumes p: "decode_members kvs zero_transient = Inr p"
    and f: "p_SizeBytes p = IFloat64 f"
    and c: "time_Parse_RFC3339 (p_CreatedAt p) = Inr c"
    and e: "\<And>s4. snd (unmarshalCustomProperties s4 (JObject kvs) transient_type) = None"
  obtains s' m where "UnmarshalJSON s (JObject kvs) = Inr (s', None)"
    and "s' = (tmp p)\<lparr>SizeBytes := int64_of_float64 f, CreatedAt := c,
                 UpdatedAt := fst (time_Parse (p_UpdatedAt p)), Properties := m\<rparr>"
proof -
  let ?s4 = "(tmp p)\<lparr>SizeBytes := int64_of_float64 f, CreatedAt := c,
                 UpdatedAt := fst (time_Parse (p_UpdatedAt p))\<rparr>"
  obtain s' where r: "unmarshalCustomProperties ?s4 (JObject kvs) transient_type = (s', None)"
    using e [of ?s4] by (metis prod.collapse)
  from unmarshalCustomProperties_frame [OF r] obtain m
    where m: "s' = ?s4\<lparr>Properties := m\<rparr>" by blast
  from UnmarshalJSON_float_created [OF p f c, of s] r
  have "UnmarshalJSON s (JObject kvs) = Inr (s', None)" by simp
  from this m show thesis by (rule that)
qed

lemma ParseFloat_one_and_half:
  "ParseFloat (FloatLit 15 (- 1)) = Some (F64 6755399441055744 (- 52))"
proof -
  have v: "value_of (FloatLit 15 (- 1)) = 3 / 2" by (simp add: value_of_def)
  have fl: "\<lfloor>(3 / 2 :: rat)\<rfloor> = 1" by (rule floor_unique) simp_all
  have b: "bitlen (nat \<lfloor>(3 / 2 :: rat)\<rfloor>) = 1" unfolding fl by (simp add: bitlen.simps)
  have bn: "binade (3 / 2) = - 52" unfolding binade_def b by (simp add: scale_def)
  have sc: "scale (3 / 2) (- 52) = 6755399441055744" by (simp add: scale_def)
  from round_half_even_int [of 6755399441055744]
  show ?thesis by (simp add: ParseFloat_def v round_float64_def bn sc)
qed

lemma int64_one_and_half: "int64_of_float64 (F64 6755399441055744 (- 52)) = 1"
  by (simp add: int64_of_float64_def trunc_float64_def in_int64_def)

lemma decode_fraction_size_image:
  "decode_members fraction_size_image zero_transient =
     Inr \<lparr>tmp = zero_Image, p_SizeBytes = IFloat64 (F64 6755399441055744 (- 52)),
          p_CreatedAt = ''2016-01-05T10:20:30Z'', p_UpdatedAt = ''2016-01-05T10:20:30Z''\<rparr>"
  by (simp add: fraction_size_image_def match_defs ParseFloat_one_and_half zero_transient_def)

lemma decode_properties_image:
  "decode_members properties_image zero_transient =
     Inr \<lparr>tmp = zero_Image\<lparr>Properties := Some [''architecture'' \<mapsto> ''x86_64'']\<rparr>,
          p_SizeBytes = IFloat64 (F64 4503599627370496 (- 22)),
          p_CreatedAt = ''2016-01-05T10:20:30Z'', p_UpdatedAt = ''2016-01-05T10:20:30Z''\<rparr>"
  by (simp add: properties_image_def match_defs ParseFloat_2_30 zero_transient_def in_tmp_def
      zero_Image_def)

lemma t_10_20_30_not_zero: "t_10_20_30 \<noteq> zero_time"
  by (simp add: t_10_20_30_def zero_time_def)

text \<open>
  The claim as stated fails three ways.  The queued image is a valid payload with a well
  formed \<^verbatim>\<open>created_at\<close>, and its \<open>CreatedAt\<close> is the zero time after the decode.  A
  size of 1.5 decodes to 1.  A \<^verbatim>\<open>properties\<close> object, the wire form of the modelled
  attribute \<open>Properties\<close>, is replaced by the custom properties.
\<close>

theorem roundtrip_counterexample:
  "UnmarshalJSON zero_Image (JObject queued_image) =
     Inr (zero_Image\<lparr>ID := ''abc'', Status := ''queued''\<rparr>, None) \<and>
   top_level queued_image ''created_at'' = Some (JString ''2016-01-05T10:20:30Z'') \<and>
   time_Parse_RFC3339 ''2016-01-05T10:20:30Z'' = Inr t_10_20_30 \<and>
   t_10_20_30 \<noteq> zero_time \<and>
   CreatedAt (zero_Image\<lparr>ID := ''abc'', Status := ''queued''\<rparr>) = zero_time \<and>
   top_level fraction_size_image ''size'' = Some (JNumber (FloatLit 15 (- 1))) \<and>
   (\<exists>s'. UnmarshalJSON zero_Image (JObject fraction_size_image) = Inr (s', None) \<and>
      SizeBytes s' = 1) \<and>
   top_level properties_image ''properties'' =
     Some (JObject [(''architecture'', JString ''x86_64'')]) \<and>
   (\<exists>s'. UnmarshalJSON zero_Image (JObject properties_image) = Inr (s', None) \<and>
      \<not> in_Properties s' ''architecture'')"
proof -
  have 1: "UnmarshalJSON zero_Image (JObject queued_image) =
     Inr (zero_Image\<lparr>ID := ''abc'', Status := ''queued''\<rparr>, None)"
    using UnmarshalJSON_nil [OF decode_queued_image, of zero_Image] by simp
  have 2: "\<exists>s'. UnmarshalJSON zero_Image (JObject fraction_size_image) = Inr (s', None) \<and>
      SizeBytes s' = 1"
  proof -
    let ?p = "\<lparr>tmp = zero_Image, p_SizeBytes = IFloat64 (F64 6755399441055744 (- 52)),
          p_CreatedAt = ''2016-01-05T10:20:30Z'', p_UpdatedAt = ''2016-01-05T10:20:30Z''\<rparr>"
    have f: "p_SizeBytes ?p = IFloat64 (F64 6755399441055744 (- 52))" by simp
    have c: "time_Parse_RFC3339 (p_CreatedAt ?p) = Inr t_10_20_30"
      by (simp add: time_Parse_10_20_30)
    have e: "snd (unmarshalCustomProperties s4 (JObject fraction_size_image) transient_type) = None"
      for s4
      by (simp add: unmarshalCustomProperties_def fraction_size_image_def
          ParseFloat_one_and_half Let_def)
    from decode_fraction_size_image f c e obtain s' m
      where ok: "UnmarshalJSON zero_Image (JObject fraction_size_image) = Inr (s', None)"
        and sh: "s' = (tmp ?p)\<lparr>SizeBytes := int64_of_float64 (F64 6755399441055744 (- 52)),
                 CreatedAt := t_10_20_30,
                 UpdatedAt := fst (time_Parse (p_UpdatedAt ?p)), Properties := m\<rparr>"
      by (rule UnmarshalJSON_float_ok)
    from sh have "SizeBytes s' = 1" by (simp add: int64_one_and_half)
    with ok show ?thesis by blast
  qed
  have 3: "\<exists>s'. UnmarshalJSON zero_Image (JObject properties_image) = Inr (s', None) \<and>
      \<not> in_Properties s' ''architecture''"
  proof -
    let ?p = "\<lparr>tmp = zero_Image\<lparr>Properties := Some [''architecture'' \<mapsto> ''x86_64'']\<rparr>,
          p_SizeBytes = IFloat64 (F64 4503599627370496 (- 22)),
          p_CreatedAt = ''2016-01-05T10:20:30Z'', p_UpdatedAt = ''2016-01-05T10:20:30Z''\<rparr>"
    have f: "p_SizeBytes ?p = IFloat64 (F64 4503599627370496 (- 22))" by simp
    have c: "time_Parse_RFC3339 (p_CreatedAt ?p) = Inr t_10_20_30"
      by (simp add: time_Parse_10_20_30)
    have e: "snd (unmarshalCustomProperties s4 (JObject properties_image) transient_type) = None"
      for s4
      by (simp add: unmarshalCustomProperties_def properties_image_def ParseFloat_2_30 Let_def)
    from decode_properties_image f c e obtain s' m
      where ok: "UnmarshalJSON zero_Image (JObject properties_image) = Inr (s', None)"
      by (rule UnmarshalJSON_float_ok)
    have size: "member P_SizeBytes properties_image = Some (JNumber (IntLit 1073741824))"
      by (simp add: properties_image_def member_Cons member_Nil match_defs)
    from ok size obtain s4
      where "unmarshalCustomProperties s4 (JObject properties_image) transient_type = (s', None)"
      by (rule UnmarshalJSON_success_float) simp
    from unmarshalCustomProperties_object [OF this] obtain ps
      where ps: "Properties s' = Some ps"
        and iff: "\<And>k x. ps k = Some x \<longleftrightarrow>
                   k \<notin> set (jsonTagKeys Image_type @ jsonTagKeys transient_type) \<and>
                   map_of (rev properties_image) k = Some (JString x)"
      by auto
    have "ps ''architecture'' = None"
    proof (cases "ps ''architecture''")
      case (Some x)
      then show ?thesis unfolding iff by (simp add: properties_image_def)
    qed simp
    with ps ok show ?thesis by (auto simp: in_Properties_def)
  qed
  have 4: "top_level queued_image ''created_at'' = Some (JString ''2016-01-05T10:20:30Z'')"
    "top_level fraction_size_image ''size'' = Some (JNumber (FloatLit 15 (- 1)))"
    "top_level properties_image ''properties'' =
       Some (JObject [(''architecture'', JString ''x86_64'')])"
    by (simp_all add: top_level_def queued_image_def fraction_size_image_def properties_image_def)
  have 5: "CreatedAt (zero_Image\<lparr>ID := ''abc'', Status := ''queued''\<rparr>) = zero_time"
    by (simp add: zero_Image_def)
  from 1 2 3 4 5 time_Parse_10_20_30 t_10_20_30_not_zero show ?thesis by blast
qed


end
